theory Spec2Isabelle
  imports Main "HOL-Library.Word"
begin

section \<open>The generic object pool of go-pool, embedded in HOL\<close>

text \<open>
  The embedding follows the version of the pool that wraps every resource in a
  \<open>PoolObject\<close> carrying its creation time (the file with \<open>isLiftTimeOut\<close>).
  One goroutine calling the pool is modelled: every operation is a function
  from the state before the call to the outcome of the call and the state after
  it. The mutex is not part of the state, since in a single goroutine \<open>Lock\<close>
  always succeeds and every path that returns unlocks first; the paths that do
  not return (a panic, a channel operation that can never proceed) end the run.
  The line printed by \<open>Acquire\<close> on an error is not modelled, nor are
  a \<open>nil\<close> configuration or a \<open>nil\<close> factory or destructor.

  Go's \<open>int\<close> (\<open>Min\<close>, \<open>Max\<close>, \<open>curNum\<close>) is modelled as an unbounded \<open>int\<close>:
  the counter moves by one per call and stays below \<open>maxCap\<close>, so it cannot
  wrap in fewer than \<open>2 ^ 31\<close> calls. The timestamps and the life time are
  \<open>int64\<close> in the source and are 64-bit words here, because
  \<open>CreateTime + maxLifeTime\<close> can wrap for a single large \<open>LiftTime\<close>.
\<close>

subsection \<open>Values of the Go program\<close>

type_synonym int64 = "64 word"

text \<open>The three package-level errors, and any other error a collaborator returns.\<close>

datatype error = ErrInvalidConfig | ErrPoolClosed | ErrFactoryFunc | ErrOther string

text \<open>
  The ways in which a channel operation of the pool stops the program: a send
  on a closed channel, a close of a closed channel, and a \<open>make\<close> that
  the runtime refuses (\<open>makechan: size out of range\<close>) or cannot allocate.
\<close>

datatype panic = SendOnClosedChannel | CloseOfClosedChannel | MakeChanFailed

text \<open>
  How a call ends: it returns a value, it panics, or it blocks on a channel
  operation that no other goroutine will ever complete.
\<close>

datatype 'r outcome = Returns 'r | Panics panic | Blocks

text \<open>\<open>Object\<close> is an \<open>interface{}\<close>: \<open>None\<close> is \<open>nil\<close>.\<close>

record 'a PoolObject =
  CreateTime :: int64
  Object :: "'a option"

text \<open>The zero value of \<open>PoolObject\<close>, which unassigned results and closed channels yield.\<close>

definition zeroPoolObject :: "'a PoolObject" where
  "zeroPoolObject = \<lparr>CreateTime = 0, Object = None\<rparr>"

subsection \<open>Buffered channels\<close>

text \<open>
  A buffered channel is its queue (the head is received next), the capacity
  given to \<open>make\<close>, and whether \<open>close\<close> has run.
\<close>

record 'v chan =
  buf :: "'v list"
  cap :: int
  chclosed :: bool

text \<open>
  \<open>make(chan T, n)\<close> returns an empty open channel of capacity \<open>n\<close>
  when \<open>n\<close> is not negative and the buffer can be had. The largest
  capacity for which it can depends on the machine (the size of an element,
  the address space, the memory that is free), so it is a parameter,
  \<open>lim\<close>; for a negative or a larger \<open>n\<close> the program stops.
\<close>

definition make_chan :: "int \<Rightarrow> int \<Rightarrow> 'v chan outcome" where
  "make_chan lim n =
     (if n < 0 \<or> lim < n then Panics MakeChanFailed
      else Returns \<lparr>buf = [], cap = n, chclosed = False\<rparr>)"

text \<open>\<open>ch <- v\<close>: panics on a closed channel, blocks on a full one.\<close>

definition chan_send :: "'v chan \<Rightarrow> 'v \<Rightarrow> 'v chan outcome" where
  "chan_send ch v =
     (if chclosed ch then Panics SendOnClosedChannel
      else if int (length (buf ch)) < cap ch then Returns (ch\<lparr>buf := buf ch @ [v]\<rparr>)
      else Blocks)"

text \<open>
  \<open><-ch\<close>: the head of the queue; on an empty channel the zero value \<open>z\<close> when the
  channel is closed, and otherwise the receive blocks.
\<close>

definition chan_recv :: "'v \<Rightarrow> 'v chan \<Rightarrow> ('v \<times> 'v chan) outcome" where
  "chan_recv z ch =
     (case buf ch of
        v # rest \<Rightarrow> Returns (v, ch\<lparr>buf := rest\<rparr>)
      | [] \<Rightarrow> if chclosed ch then Returns (z, ch) else Blocks)"

text \<open>
  The receive case of a \<open>select\<close> with a \<open>default\<close>: \<open>None\<close> is the default branch,
  taken exactly when the receive could not proceed.
\<close>

definition chan_try_recv :: "'v \<Rightarrow> 'v chan \<Rightarrow> ('v \<times> 'v chan) option" where
  "chan_try_recv z ch =
     (case chan_recv z ch of
        Returns r \<Rightarrow> Some r
      | Panics x \<Rightarrow> None
      | Blocks \<Rightarrow> None)"

text \<open>\<open>close(ch)\<close>: panics when the channel is closed already.\<close>

definition chan_close :: "'v chan \<Rightarrow> 'v chan outcome" where
  "chan_close ch =
     (if chclosed ch then Panics CloseOfClosedChannel
      else Returns (ch\<lparr>chclosed := True\<rparr>))"

subsection \<open>The pool and the world around it\<close>

text \<open>
  The factory and the destructor are opaque operations of the caller. The
  result of each is given for every call by its position in the sequence of
  calls (and, for the destructor, the value it is applied to), so that any
  deterministic behaviour over time can be written down.
\<close>

record 'a PoolConfig =
  Min_cfg :: int
  Max_cfg :: int
  LiftTime :: int64
  FactoryFunc :: "nat \<Rightarrow> error + 'a option"
  CloseFunc :: "nat \<Rightarrow> 'a option \<Rightarrow> error option"

record 'a GenericPool =
  pool :: "'a PoolObject chan"
  maxCap :: int
  minCap :: int
  curNum :: int
  closed :: bool
  maxLifeTime :: int64
  factoryFunc :: "nat \<Rightarrow> error + 'a option"
  closeFunc :: "nat \<Rightarrow> 'a option \<Rightarrow> error option"

text \<open>
  The world: the readings \<open>time.Now().Unix()\<close> gives, by position, the number
  of readings taken so far, the calls made so far to the factory (with their
  results) and to the destructor (with argument and result), and the largest
  capacity of a channel of \<open>PoolObject\<close> that \<open>make\<close> can provide.
\<close>

record 'a world =
  clock :: "nat \<Rightarrow> int64"
  clockReads :: nat
  factoryLog :: "(error + 'a option) list"
  closeLog :: "('a option \<times> error option) list"
  chanLimit :: int

text \<open>
  No machine provides more than the runtime allows: on a 64-bit machine
  \<open>makechan\<close> refuses a buffer of more than \<open>2 ^ 48\<close> bytes less the
  96 bytes of the channel header, and a \<open>PoolObject\<close> takes 24 bytes.
  The world at the start of a program has made no call yet; its machine is one
  with memory to spare, on which \<open>make\<close> goes up to that bound.
\<close>

definition maxChanCap :: int where
  "maxChanCap = (2 ^ 48 - 96) div 24"

definition init_world :: "(nat \<Rightarrow> int64) \<Rightarrow> 'a world" where
  "init_world c =
     \<lparr>clock = c, clockReads = 0, factoryLog = [], closeLog = [], chanLimit = maxChanCap\<rparr>"

definition time_Now :: "'a world \<Rightarrow> int64 \<times> 'a world" where
  "time_Now w = (clock w (clockReads w), w\<lparr>clockReads := Suc (clockReads w)\<rparr>)"

definition call_factory :: "'a GenericPool \<Rightarrow> 'a world \<Rightarrow> (error + 'a option) \<times> 'a world" where
  "call_factory p w =
     (let r = factoryFunc p (length (factoryLog w))
      in (r, w\<lparr>factoryLog := factoryLog w @ [r]\<rparr>))"

definition call_close :: "'a GenericPool \<Rightarrow> 'a option \<Rightarrow> 'a world \<Rightarrow> error option \<times> 'a world" where
  "call_close p x w =
     (let r = closeFunc p (length (closeLog w)) x
      in (r, w\<lparr>closeLog := closeLog w @ [(x, r)]\<rparr>))"

text \<open>Resources created and destroyed so far: the calls that reported no error.\<close>

definition created :: "'a world \<Rightarrow> nat" where
  "created w = length (filter (\<lambda>r. \<not> isl r) (factoryLog w))"

definition destroyed :: "'a world \<Rightarrow> nat" where
  "destroyed w = length (filter (\<lambda>(x, r). r = None) (closeLog w))"

type_synonym 'a state = "'a world \<times> 'a GenericPool"

subsection \<open>Construction\<close>

text \<open>
  The warm-up loop \<open>for i := 0; i < p.minCap; i++\<close>, by the number of iterations
  left. A failing factory call is skipped; a created resource is counted and
  sent to the channel.
\<close>

fun warmup :: "nat \<Rightarrow> int64 \<Rightarrow> 'a state \<Rightarrow> unit outcome \<times> 'a state" where
  "warmup 0 nowTime (w, p) = (Returns (), w, p)"
| "warmup (Suc n) nowTime (w, p) =
     (case call_factory p w of
        (Inl err, w') \<Rightarrow> warmup n nowTime (w', p)
      | (Inr obj, w') \<Rightarrow>
          (let p' = p\<lparr>curNum := curNum p + 1\<rparr>
           in case chan_send (pool p') \<lparr>CreateTime = nowTime, Object = obj\<rparr> of
                Returns ch \<Rightarrow> warmup n nowTime (w', p'\<lparr>pool := ch\<rparr>)
              | Panics x \<Rightarrow> (Panics x, w', p')
              | Blocks \<Rightarrow> (Blocks, w', p')))"

text \<open>
  \<open>NewGenericPool\<close> returns a pointer (\<open>None\<close> is \<open>nil\<close>) and an error
  (\<open>None\<close> is \<open>nil\<close>). The channel is made while the struct is built,
  before the clock is read; when \<open>make\<close> fails, nothing else has happened.
\<close>

definition NewGenericPool ::
  "'a PoolConfig \<Rightarrow> 'a world \<Rightarrow> ('a GenericPool option \<times> error option) outcome \<times> 'a world" where
  "NewGenericPool config w =
     (if Max_cfg config \<le> 0 \<or> Min_cfg config > Max_cfg config
      then (Returns (None, Some ErrInvalidConfig), w)
      else
        (case make_chan (chanLimit w) (Max_cfg config) of
           Panics x \<Rightarrow> (Panics x, w)
         | Blocks \<Rightarrow> (Blocks, w)
         | Returns ch \<Rightarrow>
             (let p = \<lparr>pool = ch,
                      maxCap = Max_cfg config,
                      minCap = Min_cfg config,
                      curNum = 0,
                      closed = False,
                      maxLifeTime = LiftTime config,
                      factoryFunc = FactoryFunc config,
                      closeFunc = CloseFunc config\<rparr>;
                  (nowTime, w1) = time_Now w
              in case warmup (nat (minCap p)) nowTime (w1, p) of
                   (Returns u, w2, p2) \<Rightarrow>
                     if curNum p2 = 0 then (Returns (Some p2, Some ErrFactoryFunc), w2)
                     else (Returns (Some p2, None), w2)
                 | (Panics x, w2, p2) \<Rightarrow> (Panics x, w2)
                 | (Blocks, w2, p2) \<Rightarrow> (Blocks, w2))))"

subsection \<open>Expiry\<close>

text \<open>
  \<open>isLiftTimeOut\<close>: a life time that is not positive never expires and the clock
  is not read; otherwise the 64-bit sum is compared with the clock as signed
  numbers. \<open>maxLifeTime\<close> is a \<open>time.Duration\<close>, a count of
  nanoseconds, and the clock counts seconds: the source adds and compares the
  two numbers as they are, so that the \<open>LiftTime: 5\<close> of the tests is a
  life of five seconds, and so does the model.
\<close>

definition isLiftTimeOut :: "'a GenericPool \<Rightarrow> 'a PoolObject \<Rightarrow> 'a world \<Rightarrow> bool \<times> 'a world" where
  "isLiftTimeOut p obj w =
     (if sint (maxLifeTime p) \<le> 0 then (False, w)
      else (let (now, w') = time_Now w
            in (sint (CreateTime obj + maxLifeTime p) \<le> sint now, w')))"

subsection \<open>Acquire\<close>

definition getOrCreate :: "'a state \<Rightarrow> ('a PoolObject \<times> error option) outcome \<times> 'a state" where
  "getOrCreate s =
     (case s of (w, p) \<Rightarrow>
        (case chan_try_recv zeroPoolObject (pool p) of
           Some (poolObj, ch) \<Rightarrow> (Returns (poolObj, None), w, p\<lparr>pool := ch\<rparr>)
         | None \<Rightarrow>
             if curNum p \<ge> maxCap p then
               (case chan_recv zeroPoolObject (pool p) of
                  Returns (poolObj, ch) \<Rightarrow> (Returns (poolObj, None), w, p\<lparr>pool := ch\<rparr>)
                | Panics x \<Rightarrow> (Panics x, w, p)
                | Blocks \<Rightarrow> (Blocks, w, p))
             else
               (let (nowTime, w1) = time_Now w;
                    (r, w2) = call_factory p w1
                in case r of
                     Inl err \<Rightarrow> (Returns (zeroPoolObject, Some err), w2, p)
                   | Inr obj \<Rightarrow>
                       (Returns (\<lparr>CreateTime = nowTime, Object = obj\<rparr>, None),
                        w2, p\<lparr>curNum := curNum p + 1\<rparr>))))"

text \<open>
  The loop of \<open>Acquire\<close> has no bound: it is a partial function, and \<open>None\<close>
  means that the loop runs forever.
\<close>

partial_function (option) Acquire_loop ::
  "'a state \<Rightarrow> (('a PoolObject \<times> error option) outcome \<times> 'a state) option" where
  "Acquire_loop s =
     (case getOrCreate s of
        (Returns (poolObj, Some err), w, p) \<Rightarrow> Some (Returns (poolObj, Some err), w, p)
      | (Returns (poolObj, None), w, p) \<Rightarrow>
          (case isLiftTimeOut p poolObj w of
             (expired, w') \<Rightarrow>
               if expired then Acquire_loop (w', p)
               else Some (Returns (poolObj, None), w', p))
      | (Panics x, w, p) \<Rightarrow> Some (Panics x, w, p)
      | (Blocks, w, p) \<Rightarrow> Some (Blocks, w, p))"

declare Acquire_loop.simps [code]

definition Acquire ::
  "'a state \<Rightarrow> (('a PoolObject \<times> error option) outcome \<times> 'a state) option" where
  "Acquire s =
     (if closed (snd s) then Some (Returns (zeroPoolObject, Some ErrPoolClosed), s)
      else Acquire_loop s)"

subsection \<open>Release, Close, Shutdown\<close>

definition Release :: "'a PoolObject \<Rightarrow> 'a state \<Rightarrow> error option outcome \<times> 'a state" where
  "Release poolObj s =
     (case s of (w, p) \<Rightarrow>
        if closed p then (Returns (Some ErrPoolClosed), w, p)
        else
          (case isLiftTimeOut p poolObj w of
             (expired, w') \<Rightarrow>
               if \<not> expired then
                 (case chan_send (pool p) poolObj of
                    Returns ch \<Rightarrow> (Returns None, w', p\<lparr>pool := ch\<rparr>)
                  | Panics x \<Rightarrow> (Panics x, w', p)
                  | Blocks \<Rightarrow> (Blocks, w', p))
               else (Returns None, w', p)))"

definition Close :: "'a PoolObject \<Rightarrow> 'a state \<Rightarrow> error option outcome \<times> 'a state" where
  "Close poolObj s =
     (case s of (w, p) \<Rightarrow>
        (case call_close p (Object poolObj) w of
           (Some err, w') \<Rightarrow> (Returns (Some err), w', p)
         | (None, w') \<Rightarrow> (Returns None, w', p\<lparr>curNum := curNum p - 1\<rparr>)))"

text \<open>
  The loop \<open>for poolObj := range p.pool\<close> of \<open>Shutdown\<close>, by the queue still to
  be received: every received resource has left the channel before the
  destructor runs on it. The channel has been closed, so the loop ends when the
  queue is empty.
\<close>

fun drain :: "'a PoolObject list \<Rightarrow> 'a state \<Rightarrow> error option \<times> 'a state" where
  "drain [] (w, p) = (None, w, p)"
| "drain (poolObj # rest) (w, p) =
     (let p1 = p\<lparr>pool := (pool p)\<lparr>buf := rest\<rparr>\<rparr>
      in case call_close p1 (Object poolObj) w of
           (Some err, w') \<Rightarrow> (Some err, w', p1)
         | (None, w') \<Rightarrow> drain rest (w', p1\<lparr>curNum := curNum p1 - 1\<rparr>))"

definition Shutdown :: "'a state \<Rightarrow> error option outcome \<times> 'a state" where
  "Shutdown s =
     (case s of (w, p) \<Rightarrow>
        if closed p then (Returns (Some ErrPoolClosed), w, p)
        else
          (case chan_close (pool p) of
             Panics x \<Rightarrow> (Panics x, w, p)
           | Blocks \<Rightarrow> (Blocks, w, p)
           | Returns ch \<Rightarrow>
               (case drain (buf ch) (w, p\<lparr>pool := ch\<rparr>) of
                  (Some err, w', p') \<Rightarrow> (Returns (Some err), w', p')
                | (None, w', p') \<Rightarrow> (Returns None, w', p'\<lparr>closed := True\<rparr>))))"

definition Len :: "'a GenericPool \<Rightarrow> nat" where
  "Len p = length (buf (pool p))"

definition IsClosed :: "'a GenericPool \<Rightarrow> bool" where
  "IsClosed p = closed p"

subsection \<open>Sequences of calls\<close>

text \<open>
  A caller's program is a list of calls. \<open>exec\<close> runs one call; \<open>run\<close> runs
  a list for as long as every call returns, collecting the replies, and is
  \<open>None\<close> as soon as a call panics, blocks or loops forever.
\<close>

datatype 'a call =
  CallAcquire
  | CallRelease "'a PoolObject"
  | CallClose "'a PoolObject"
  | CallShutdown

datatype 'a reply =
  AcquireReply "'a PoolObject" "error option"
  | ErrorReply "error option"

definition exec :: "'a call \<Rightarrow> 'a state \<Rightarrow> ('a reply outcome \<times> 'a state) option" where
  "exec c s =
     (case c of
        CallAcquire \<Rightarrow>
          (case Acquire s of
             None \<Rightarrow> None
           | Some (r, s') \<Rightarrow> Some (map_outcome (\<lambda>(obj, err). AcquireReply obj err) r, s'))
      | CallRelease obj \<Rightarrow>
          (case Release obj s of (r, s') \<Rightarrow> Some (map_outcome ErrorReply r, s'))
      | CallClose obj \<Rightarrow>
          (case Close obj s of (r, s') \<Rightarrow> Some (map_outcome ErrorReply r, s'))
      | CallShutdown \<Rightarrow>
          (case Shutdown s of (r, s') \<Rightarrow> Some (map_outcome ErrorReply r, s')))"

fun run :: "'a call list \<Rightarrow> 'a state \<Rightarrow> ('a reply list \<times> 'a state) option" where
  "run [] s = Some ([], s)"
| "run (c # cs) s =
     (case exec c s of
        Some (Returns r, s') \<Rightarrow>
          (case run cs s' of
             None \<Rightarrow> None
           | Some (rs, s'') \<Rightarrow> Some (r # rs, s''))
      | Some (Panics x, s') \<Rightarrow> None
      | Some (Blocks, s') \<Rightarrow> None
      | None \<Rightarrow> None)"

text \<open>The reply of a closed pool to a call, where the call has one.\<close>

fun closed_reply :: "'a call \<Rightarrow> 'a reply \<Rightarrow> bool" where
  "closed_reply CallAcquire r = (r = AcquireReply zeroPoolObject (Some ErrPoolClosed))"
| "closed_reply (CallRelease obj) r = (r = ErrorReply (Some ErrPoolClosed))"
| "closed_reply CallShutdown r = (r = ErrorReply (Some ErrPoolClosed))"
| "closed_reply (CallClose obj) r = True"

text \<open>The values the \<open>Close\<close> calls of a program hand to the destructor.\<close>

fun close_args :: "'a call list \<Rightarrow> 'a option list" where
  "close_args [] = []"
| "close_args (CallClose obj # cs) = Object obj # close_args cs"
| "close_args (c # cs) = close_args cs"

text \<open>
  Whether a resource created at \<open>ct\<close> counts as expired at the reading \<open>now\<close>
  under the life time \<open>ttl\<close>: the test of \<open>isLiftTimeOut\<close> on given numbers.
\<close>

definition expired_at :: "int64 \<Rightarrow> int64 \<Rightarrow> int64 \<Rightarrow> bool" where
  "expired_at ttl ct now = (\<not> sint ttl \<le> 0 \<and> sint (ct + ttl) \<le> sint now)"

subsection \<open>Concrete configurations and clocks\<close>

text \<open>
  Inputs on which the theorems below are run: the configuration of the
  repository's tests with a factory and a destructor that always succeed, one
  whose second factory call and second destructor call fail, one without
  warm-up, one that the check of \<open>NewGenericPool\<close> rejects, and a clock
  that stands still.
\<close>

definition cfg_demo :: "nat PoolConfig" where
  "cfg_demo = \<lparr>Min_cfg = 3, Max_cfg = 5, LiftTime = 5,
     FactoryFunc = (\<lambda>k. Inr (Some k)), CloseFunc = (\<lambda>k x. None)\<rparr>"

definition cfg_flaky :: "nat PoolConfig" where
  "cfg_flaky = \<lparr>Min_cfg = 3, Max_cfg = 5, LiftTime = 5,
     FactoryFunc = (\<lambda>k. if k = 1 then Inl (ErrOther ''dial'') else Inr (Some k)),
     CloseFunc = (\<lambda>k x. if k = 1 then Some (ErrOther ''busy'') else None)\<rparr>"

definition cfg_cold :: "nat PoolConfig" where
  "cfg_cold = \<lparr>Min_cfg = 0, Max_cfg = 2, LiftTime = 0,
     FactoryFunc = (\<lambda>k. Inr (Some k)), CloseFunc = (\<lambda>k x. None)\<rparr>"

definition cfg_bad :: "nat PoolConfig" where
  "cfg_bad = \<lparr>Min_cfg = 3, Max_cfg = 2, LiftTime = 0,
     FactoryFunc = (\<lambda>k. Inr (Some k)), CloseFunc = (\<lambda>k x. None)\<rparr>"

definition still :: "nat \<Rightarrow> int64" where
  "still k = 100"

text \<open>
  Two configurations that pass the check and ask for a channel of
  \<open>2 ^ 62\<close> resources, one with a warm-up of three and one without.
\<close>

definition cfg_huge_warm :: "nat PoolConfig" where
  "cfg_huge_warm = \<lparr>Min_cfg = 3, Max_cfg = 2 ^ 62, LiftTime = 0,
     FactoryFunc = (\<lambda>k. Inr (Some k)), CloseFunc = (\<lambda>k x. None)\<rparr>"

definition cfg_huge_cold :: "nat PoolConfig" where
  "cfg_huge_cold = \<lparr>Min_cfg = 0, Max_cfg = 2 ^ 62, LiftTime = 0,
     FactoryFunc = (\<lambda>k. Inr (Some k)), CloseFunc = (\<lambda>k x. None)\<rparr>"

text \<open>
  A pool of the second configuration with one idle resource and a counter of 2.
\<close>

definition pool_two :: "nat GenericPool" where
  "pool_two = \<lparr>pool = \<lparr>buf = [\<lparr>CreateTime = 100, Object = Some 0\<rparr>], cap = 5, chclosed = False\<rparr>,
     maxCap = 5, minCap = 3, curNum = 2, closed = False, maxLifeTime = 5,
     factoryFunc = FactoryFunc cfg_flaky, closeFunc = CloseFunc cfg_flaky\<rparr>"

text \<open>
  A clock that reads 100 first and 110 ever after, and the pool and the world
  that the construction leaves for the first configuration when the clock
  starts at 100.
\<close>

definition jump :: "nat \<Rightarrow> int64" where
  "jump k = (if k = 0 then 100 else 110)"

definition demo_pool :: "nat GenericPool" where
  "demo_pool = \<lparr>pool = \<lparr>buf = [\<lparr>CreateTime = 100, Object = Some 0\<rparr>,
         \<lparr>CreateTime = 100, Object = Some 1\<rparr>, \<lparr>CreateTime = 100, Object = Some 2\<rparr>],
       cap = 5, chclosed = False\<rparr>,
     maxCap = 5, minCap = 3, curNum = 3, closed = False, maxLifeTime = 5,
     factoryFunc = FactoryFunc cfg_demo, closeFunc = CloseFunc cfg_demo\<rparr>"

definition demo_world :: "(nat \<Rightarrow> int64) \<Rightarrow> nat world" where
  "demo_world c = \<lparr>clock = c, clockReads = 1,
     factoryLog = [Inr (Some 0), Inr (Some 1), Inr (Some 2)], closeLog = [],
     chanLimit = maxChanCap\<rparr>"

text \<open>
  The first configuration with the destructor of the second, which fails on
  its second call, the pool its construction leaves, and the state in which a
  \<open>Shutdown\<close> of that pool ends.
\<close>

definition cfg_busy :: "nat PoolConfig" where
  "cfg_busy = cfg_demo\<lparr>CloseFunc := CloseFunc cfg_flaky\<rparr>"

definition busy_pool :: "nat GenericPool" where
  "busy_pool = demo_pool\<lparr>closeFunc := CloseFunc cfg_flaky\<rparr>"

definition limbo_world :: "nat world" where
  "limbo_world = (demo_world still)\<lparr>closeLog :=
     [(Some 0, None), (Some 1, Some (ErrOther ''busy''))]\<rparr>"

definition limbo_pool :: "nat GenericPool" where
  "limbo_pool = busy_pool\<lparr>pool :=
       \<lparr>buf = [\<lparr>CreateTime = 100, Object = Some 2\<rparr>], cap = 5, chclosed = True\<rparr>,
     curNum := 2\<rparr>"

text \<open>
  A configuration for a pool of one resource that never expires, and the pool
  and the world its construction leaves.
\<close>

definition cfg_single :: "nat PoolConfig" where
  "cfg_single = \<lparr>Min_cfg = 1, Max_cfg = 1, LiftTime = 0,
     FactoryFunc = (\<lambda>k. Inr (Some k)), CloseFunc = (\<lambda>k x. None)\<rparr>"

definition single_pool :: "nat GenericPool" where
  "single_pool = \<lparr>pool = \<lparr>buf = [\<lparr>CreateTime = 100, Object = Some 0\<rparr>],
       cap = 1, chclosed = False\<rparr>,
     maxCap = 1, minCap = 1, curNum = 1, closed = False, maxLifeTime = 0,
     factoryFunc = FactoryFunc cfg_single, closeFunc = CloseFunc cfg_single\<rparr>"

definition single_world :: "nat world" where
  "single_world = \<lparr>clock = still, clockReads = 1, factoryLog = [Inr (Some 0)], closeLog = [],
     chanLimit = maxChanCap\<rparr>"





section \<open>Properties\<close>

subsection \<open>The warm-up loop\<close>

text \<open>
  On an open channel with room for \<open>n\<close> more entries the warm-up loop
  returns. It calls the factory \<open>n\<close> times whatever the calls return, touches
  nothing but the factory log, the queue and the counter, and moves the counter
  and the length of the queue by the number of resources created.
\<close>

lemma warmup_props:
  assumes "\<not> chclosed (pool p)" and "int (length (buf (pool p))) + int n \<le> cap (pool p)"
  shows "\<exists>w' p'. warmup n t (w, p) = (Returns (), w', p') \<and>
      w' = w\<lparr>factoryLog := factoryLog w'\<rparr> \<and>
      factoryLog w' = factoryLog w @
        map (factoryFunc p) [length (factoryLog w)..<length (factoryLog w) + n] \<and>
      p' = p\<lparr>pool := pool p', curNum := curNum p'\<rparr> \<and>
      pool p' = (pool p)\<lparr>buf := buf (pool p')\<rparr> \<and>
      curNum p' - curNum p = int (created w') - int (created w) \<and>
      int (length (buf (pool p'))) - int (length (buf (pool p))) = int (created w') - int (created w) \<and>
      created w \<le> created w' \<and> created w' \<le> created w + n"
  using assms
proof (induction n arbitrary: w p)
  case 0
  then show ?case by simp
next
  case (Suc n)
  show ?case
  proof (cases "factoryFunc p (length (factoryLog w))")
    case (Inl err)
    let ?w1 = "w\<lparr>factoryLog := factoryLog w @ [Inl err]\<rparr>"
    from Suc.prems have "int (length (buf (pool p))) + int n \<le> cap (pool p)" by simp
    from Suc.IH [OF Suc.prems(1) this, of ?w1]
    obtain w' p' where H: "warmup n t (?w1, p) = (Returns (), w', p')"
      "w' = ?w1\<lparr>factoryLog := factoryLog w'\<rparr>"
      "factoryLog w' = factoryLog ?w1 @
        map (factoryFunc p) [length (factoryLog ?w1)..<length (factoryLog ?w1) + n]"
      "p' = p\<lparr>pool := pool p', curNum := curNum p'\<rparr>"
      "pool p' = (pool p)\<lparr>buf := buf (pool p')\<rparr>"
      "curNum p' - curNum p = int (created w') - int (created ?w1)"
      "int (length (buf (pool p'))) - int (length (buf (pool p))) = int (created w') - int (created ?w1)"
      "created ?w1 \<le> created w'" "created w' \<le> created ?w1 + n"
      by blast
    have c: "created ?w1 = created w" by (simp add: created_def)
    have w: "warmup (Suc n) t (w, p) = (Returns (), w', p')"
      using H(1) Inl by (simp add: call_factory_def Let_def)
    have l: "factoryLog w' = factoryLog w @
        map (factoryFunc p) [length (factoryLog w)..<length (factoryLog w) + Suc n]"
      using H(3) Inl by (simp add: upt_rec [of "length (factoryLog w)"])
    have e: "w' = w\<lparr>factoryLog := factoryLog w'\<rparr>"
      using H(2) by simp
    show ?thesis
      using w l e H(4-9) c by (intro exI [of _ w'] exI [of _ p']) simp
  next
    case (Inr obj)
    let ?w1 = "w\<lparr>factoryLog := factoryLog w @ [Inr obj]\<rparr>"
    let ?p1 = "p\<lparr>curNum := curNum p + 1,
        pool := (pool p)\<lparr>buf := buf (pool p) @ [\<lparr>CreateTime = t, Object = obj\<rparr>]\<rparr>\<rparr>"
    from Suc.prems have a: "\<not> chclosed (pool ?p1)"
      and b: "int (length (buf (pool ?p1))) + int n \<le> cap (pool ?p1)" by simp_all
    from Suc.IH [OF a b, of ?w1]
    obtain w' p' where H: "warmup n t (?w1, ?p1) = (Returns (), w', p')"
      "w' = ?w1\<lparr>factoryLog := factoryLog w'\<rparr>"
      "factoryLog w' = factoryLog ?w1 @
        map (factoryFunc ?p1) [length (factoryLog ?w1)..<length (factoryLog ?w1) + n]"
      "p' = ?p1\<lparr>pool := pool p', curNum := curNum p'\<rparr>"
      "pool p' = (pool ?p1)\<lparr>buf := buf (pool p')\<rparr>"
      "curNum p' - curNum ?p1 = int (created w') - int (created ?w1)"
      "int (length (buf (pool p'))) - int (length (buf (pool ?p1))) = int (created w') - int (created ?w1)"
      "created ?w1 \<le> created w'" "created w' \<le> created ?w1 + n"
      by blast
    have c: "created ?w1 = Suc (created w)" by (simp add: created_def)
    have w: "warmup (Suc n) t (w, p) = (Returns (), w', p')"
      using H(1) Inr Suc.prems by (simp add: call_factory_def chan_send_def Let_def)
    have l: "factoryLog w' = factoryLog w @
        map (factoryFunc p) [length (factoryLog w)..<length (factoryLog w) + Suc n]"
      using H(3) Inr by (simp add: upt_rec [of "length (factoryLog w)"])
    have e: "w' = w\<lparr>factoryLog := factoryLog w'\<rparr>"
      using H(2) by simp
    have e2: "p' = p\<lparr>pool := pool p', curNum := curNum p'\<rparr>"
      using H(4) by simp
    have e3: "pool p' = (pool p)\<lparr>buf := buf (pool p')\<rparr>"
      using H(5) by simp
    show ?thesis
      using w l e e2 e3 H(6-9) c by (intro exI [of _ w'] exI [of _ p']) simp
  qed
qed

subsection \<open>Construction with a configuration that passes the check\<close>

text \<open>
  When the configuration passes the check of \<open>NewGenericPool\<close> and
  \<open>make\<close> can provide a channel of capacity \<open>Max\<close>, the
  construction returns a pool: the clock is read once, the factory is called
  once per warm-up iteration, and the queue and the counter both hold the
  number of resources created. The error is \<open>ErrFactoryFunc\<close> exactly when
  the counter is 0. When \<open>make\<close> cannot, the construction stops there,
  with no clock reading and no factory call.
\<close>

lemma NewGenericPool_make_fails:
  assumes "\<not> (Max_cfg config \<le> 0 \<or> Min_cfg config > Max_cfg config)"
    and "chanLimit w < Max_cfg config"
  shows "NewGenericPool config w = (Panics MakeChanFailed, w)"
  using assms by (simp add: NewGenericPool_def make_chan_def)

lemma NewGenericPool_valid:
  assumes v: "\<not> (Max_cfg config \<le> 0 \<or> Min_cfg config > Max_cfg config)"
    and lim: "Max_cfg config \<le> chanLimit w"
  shows "\<exists>p w'. NewGenericPool config w =
        (Returns (Some p, if curNum p = 0 then Some ErrFactoryFunc else None), w') \<and>
      w' = w\<lparr>clockReads := Suc (clockReads w), factoryLog := factoryLog w'\<rparr> \<and>
      factoryLog w' = factoryLog w @
        map (FactoryFunc config)
          [length (factoryLog w)..<length (factoryLog w) + nat (Min_cfg config)] \<and>
      p = \<lparr>pool = \<lparr>buf = buf (pool p), cap = Max_cfg config, chclosed = False\<rparr>,
           maxCap = Max_cfg config, minCap = Min_cfg config, curNum = curNum p,
           closed = False, maxLifeTime = LiftTime config,
           factoryFunc = FactoryFunc config, closeFunc = CloseFunc config\<rparr> \<and>
      curNum p = int (created w') - int (created w) \<and>
      int (length (buf (pool p))) = int (created w') - int (created w) \<and>
      created w \<le> created w' \<and> created w' \<le> created w + nat (Min_cfg config)"
proof -
  let ?p0 = "\<lparr>pool = \<lparr>buf = [], cap = Max_cfg config, chclosed = False\<rparr>,
      maxCap = Max_cfg config,
      minCap = Min_cfg config, curNum = 0, closed = False,
      maxLifeTime = LiftTime config, factoryFunc = FactoryFunc config,
      closeFunc = CloseFunc config\<rparr>"
  let ?w1 = "w\<lparr>clockReads := Suc (clockReads w)\<rparr>"
  let ?n = "nat (Min_cfg config)"
  have a: "\<not> chclosed (pool ?p0)" by simp
  have b: "int (length (buf (pool ?p0))) + int ?n \<le> cap (pool ?p0)"
    using v by simp
  from warmup_props [OF a b, of "clock w (clockReads w)" ?w1]
  obtain w' p' where H: "warmup ?n (clock w (clockReads w)) (?w1, ?p0) = (Returns (), w', p')"
      "w' = ?w1\<lparr>factoryLog := factoryLog w'\<rparr>"
      "factoryLog w' = factoryLog ?w1 @
        map (factoryFunc ?p0) [length (factoryLog ?w1)..<length (factoryLog ?w1) + ?n]"
      "p' = ?p0\<lparr>pool := pool p', curNum := curNum p'\<rparr>"
      "pool p' = (pool ?p0)\<lparr>buf := buf (pool p')\<rparr>"
      "curNum p' - curNum ?p0 = int (created w') - int (created ?w1)"
      "int (length (buf (pool p'))) - int (length (buf (pool ?p0))) =
         int (created w') - int (created ?w1)"
      "created ?w1 \<le> created w'" "created w' \<le> created ?w1 + ?n"
    by blast
  have c: "created ?w1 = created w" by (simp add: created_def)
  have r: "NewGenericPool config w =
      (Returns (Some p', if curNum p' = 0 then Some ErrFactoryFunc else None), w')"
    using v lim H(1) by (simp add: NewGenericPool_def make_chan_def time_Now_def)
  have e1: "w' = w\<lparr>clockReads := Suc (clockReads w), factoryLog := factoryLog w'\<rparr>"
    using H(2) by simp
  have e2: "factoryLog w' = factoryLog w @
        map (FactoryFunc config) [length (factoryLog w)..<length (factoryLog w) + ?n]"
    using H(3) by simp
  have e3: "p' = \<lparr>pool = \<lparr>buf = buf (pool p'), cap = Max_cfg config, chclosed = False\<rparr>,
           maxCap = Max_cfg config, minCap = Min_cfg config, curNum = curNum p',
           closed = False, maxLifeTime = LiftTime config,
           factoryFunc = FactoryFunc config, closeFunc = CloseFunc config\<rparr>"
    using H(4) H(5) by (cases p') simp
  have e4: "curNum p' = int (created w') - int (created w)"
    using H(6) c by simp
  have e5: "int (length (buf (pool p'))) = int (created w') - int (created w)"
    using H(7) c by simp
  have e6: "created w \<le> created w'" "created w' \<le> created w + ?n"
    using H(8) H(9) c by simp_all
  show ?thesis
    using r e1 e2 e3 e4 e5 e6 by blast
qed

subsection \<open>One turn of the loop of Acquire\<close>

text \<open>
  The expiry test in terms of \<open>expired_at\<close>, the two ways \<open>getOrCreate\<close>
  obtains a resource, and what the loop does with the result.
\<close>

lemma isLiftTimeOut_eq:
  "isLiftTimeOut p obj w =
     (expired_at (maxLifeTime p) (CreateTime obj) (clock w (clockReads w)),
      if sint (maxLifeTime p) \<le> 0 then w else w\<lparr>clockReads := Suc (clockReads w)\<rparr>)"
  by (simp add: isLiftTimeOut_def expired_at_def time_Now_def)

lemma getOrCreate_default:
  assumes "buf (pool p) = []" and "\<not> chclosed (pool p)" and "curNum p < maxCap p"
  shows "getOrCreate (w, p) =
     (case factoryFunc p (length (factoryLog w)) of
        Inl err \<Rightarrow>
          (Returns (zeroPoolObject, Some err),
           w\<lparr>clockReads := Suc (clockReads w), factoryLog := factoryLog w @ [Inl err]\<rparr>, p)
      | Inr obj \<Rightarrow>
          (Returns (\<lparr>CreateTime = clock w (clockReads w), Object = obj\<rparr>, None),
           w\<lparr>clockReads := Suc (clockReads w), factoryLog := factoryLog w @ [Inr obj]\<rparr>,
           p\<lparr>curNum := curNum p + 1\<rparr>))"
  using assms
  by (simp add: getOrCreate_def chan_try_recv_def chan_recv_def time_Now_def
      call_factory_def Let_def split: sum.splits)

lemma getOrCreate_idle:
  assumes "buf (pool p) = x # rest"
  shows "getOrCreate (w, p) = (Returns (x, None), w, p\<lparr>pool := (pool p)\<lparr>buf := rest\<rparr>\<rparr>)"
  using assms by (simp add: getOrCreate_def chan_try_recv_def chan_recv_def)


lemma Acquire_loop_fresh:
  assumes "getOrCreate s = (Returns (obj, None), w, p)"
    and "\<not> expired_at (maxLifeTime p) (CreateTime obj) (clock w (clockReads w))"
  shows "Acquire_loop s =
     Some (Returns (obj, None),
       if sint (maxLifeTime p) \<le> 0 then w else w\<lparr>clockReads := Suc (clockReads w)\<rparr>, p)"
  using assms by (subst Acquire_loop.simps) (simp add: isLiftTimeOut_eq)

lemma Acquire_loop_expired:
  assumes "getOrCreate s = (Returns (obj, None), w, p)"
    and "expired_at (maxLifeTime p) (CreateTime obj) (clock w (clockReads w))"
  shows "Acquire_loop s = Acquire_loop (w\<lparr>clockReads := Suc (clockReads w)\<rparr>, p)"
proof -
  from assms(2) have "\<not> sint (maxLifeTime p) \<le> 0" by (simp add: expired_at_def)
  with assms show ?thesis
    by (subst Acquire_loop.simps) (simp add: isLiftTimeOut_eq)
qed


text \<open>
  A call of \<open>Acquire\<close> on an open pool with an empty, open channel and
  a counter below the maximum: the factory decides.
\<close>

lemma Acquire_creates:
  assumes "\<not> closed p" and "buf (pool p) = []" and "\<not> chclosed (pool p)"
    and "curNum p < maxCap p"
    and "factoryFunc p (length (factoryLog w)) = Inr obj"
    and "\<not> expired_at (maxLifeTime p) (clock w (clockReads w)) (clock w (Suc (clockReads w)))"
  shows "Acquire (w, p) =
     Some (Returns (\<lparr>CreateTime = clock w (clockReads w), Object = obj\<rparr>, None),
       w\<lparr>clockReads := (if sint (maxLifeTime p) \<le> 0 then Suc (clockReads w)
                          else Suc (Suc (clockReads w))),
         factoryLog := factoryLog w @ [Inr obj]\<rparr>,
       p\<lparr>curNum := curNum p + 1\<rparr>)"
proof -
  let ?w1 = "w\<lparr>clockReads := Suc (clockReads w), factoryLog := factoryLog w @ [Inr obj]\<rparr>"
  let ?p1 = "p\<lparr>curNum := curNum p + 1\<rparr>"
  let ?o = "\<lparr>CreateTime = clock w (clockReads w), Object = obj\<rparr>"
  have g: "getOrCreate (w, p) = (Returns (?o, None), ?w1, ?p1)"
    using getOrCreate_default [OF assms(2,3,4), of w] assms(5) by simp
  have f: "\<not> expired_at (maxLifeTime ?p1) (CreateTime ?o) (clock ?w1 (clockReads ?w1))"
    using assms(6) by simp
  show ?thesis
    using Acquire_loop_fresh [OF g f] assms(1) by (simp add: Acquire_def)
qed


subsection \<open>Bookkeeping of the logs\<close>

lemma created_update [simp]:
  "created (w\<lparr>clockReads := n\<rparr>) = created w"
  "created (w\<lparr>closeLog := l\<rparr>) = created w"
  "created (w\<lparr>factoryLog := factoryLog w @ [r]\<rparr>) = created w + (if isl r then 0 else 1)"
  by (simp_all add: created_def)

lemma destroyed_update [simp]:
  "destroyed (w\<lparr>clockReads := n\<rparr>) = destroyed w"
  "destroyed (w\<lparr>factoryLog := l\<rparr>) = destroyed w"
  "destroyed (w\<lparr>closeLog := closeLog w @ [(x, e)]\<rparr>) =
     destroyed w + (if e = None then 1 else 0)"
  by (simp_all add: destroyed_def)

subsection \<open>Expiry and age\<close>

text \<open>
  A resource whose age, as a difference of integers, has reached a positive
  life time is expired for \<open>isLiftTimeOut\<close>: the 64-bit sum cannot wrap
  then.
\<close>

lemma sint_add_in_range:
  fixes a b :: int64
  assumes "- (2 ^ 63) \<le> sint a + sint b" and "sint a + sint b < 2 ^ 63"
  shows "sint (a + b) = sint a + sint b"
  using assms by (simp add: sint_word_ariths signed_take_bit_int_eq_self)

lemma old_is_expired:
  assumes "0 < sint ttl" and "sint ttl \<le> sint now - sint ct"
  shows "expired_at ttl ct now"
proof -
  have u: "sint now < 2 ^ 63" using sint_lt [of now] by simp
  have l: "- (2 ^ 63) \<le> sint ct" using sint_ge [of ct] by simp
  have "sint (ct + ttl) = sint ct + sint ttl"
    using assms u l by (intro sint_add_in_range) simp_all
  with assms show ?thesis by (simp add: expired_at_def)
qed

subsection \<open>What Acquire leaves alone\<close>

text \<open>
  \<open>getOrCreate\<close>, and with it every call of \<open>Acquire\<close> that ends,
  changes only the queue, the counter, the number of clock readings and the
  factory log. The counter moves with the number of resources created and does
  not pass the maximum.
\<close>

lemma getOrCreate_frame:
  assumes "getOrCreate (w, p) = (r, w', p')"
  shows "maxCap p' = maxCap p \<and> minCap p' = minCap p \<and> closed p' = closed p \<and>
     maxLifeTime p' = maxLifeTime p \<and> factoryFunc p' = factoryFunc p \<and>
     closeFunc p' = closeFunc p \<and> cap (pool p') = cap (pool p) \<and>
     chclosed (pool p') = chclosed (pool p) \<and>
     clock w' = clock w \<and> closeLog w' = closeLog w \<and>
     clockReads w \<le> clockReads w' \<and>
     curNum p' - int (created w') = curNum p - int (created w) \<and>
     curNum p \<le> curNum p' \<and>
     (curNum p \<le> maxCap p \<longrightarrow> curNum p' \<le> maxCap p) \<and>
     length (buf (pool p')) \<le> length (buf (pool p))"
  using assms
  by (auto simp: getOrCreate_def chan_try_recv_def chan_recv_def time_Now_def
      call_factory_def Let_def created_def
      split: option.splits list.splits if_splits sum.splits outcome.splits prod.splits)

lemma Acquire_loop_frame_aux:
  assumes "Acquire_loop s = Some y"
  shows "maxCap (snd (snd y)) = maxCap (snd s) \<and> minCap (snd (snd y)) = minCap (snd s) \<and>
     closed (snd (snd y)) = closed (snd s) \<and>
     maxLifeTime (snd (snd y)) = maxLifeTime (snd s) \<and>
     factoryFunc (snd (snd y)) = factoryFunc (snd s) \<and>
     closeFunc (snd (snd y)) = closeFunc (snd s) \<and>
     cap (pool (snd (snd y))) = cap (pool (snd s)) \<and>
     chclosed (pool (snd (snd y))) = chclosed (pool (snd s)) \<and>
     clock (fst (snd y)) = clock (fst s) \<and> closeLog (fst (snd y)) = closeLog (fst s) \<and>
     clockReads (fst s) \<le> clockReads (fst (snd y)) \<and>
     curNum (snd (snd y)) - int (created (fst (snd y))) =
       curNum (snd s) - int (created (fst s)) \<and>
     curNum (snd s) \<le> curNum (snd (snd y)) \<and>
     (curNum (snd s) \<le> maxCap (snd s) \<longrightarrow> curNum (snd (snd y)) \<le> maxCap (snd s)) \<and>
     length (buf (pool (snd (snd y)))) \<le> length (buf (pool (snd s)))"
  using assms
proof (induction rule: Acquire_loop.raw_induct [rotated 1, consumes 1])
  case (1 loop s y)
  obtain w p where s: "s = (w, p)" by (cases s)
  obtain r w1 p1 where g: "getOrCreate (w, p) = (r, w1, p1)" by (cases "getOrCreate (w, p)")
  note f = getOrCreate_frame [OF g]
  show ?case
  proof (cases r)
    case (Returns v)
    obtain obj e where v: "v = (obj, e)" by (cases v)
    show ?thesis
    proof (cases e)
      case (Some err)
      with 1(2) s g Returns v have "y = (Returns (obj, Some err), w1, p1)" by simp
      with f s show ?thesis by simp
    next
      case None
      let ?w2 = "if sint (maxLifeTime p1) \<le> 0 then w1 else w1\<lparr>clockReads := Suc (clockReads w1)\<rparr>"
      show ?thesis
      proof (cases "expired_at (maxLifeTime p1) (CreateTime obj) (clock w1 (clockReads w1))")
        case True
        with 1(2) s g Returns v None have "loop (?w2, p1) = Some y"
          by (simp add: isLiftTimeOut_eq)
        from 1(1) [OF this] f s show ?thesis by (simp split: if_splits)
      next
        case False
        with 1(2) s g Returns v None have "y = (Returns (obj, None), ?w2, p1)"
          by (simp add: isLiftTimeOut_eq)
        with f s show ?thesis by (simp split: if_splits)
      qed
    qed
  next
    case (Panics x)
    with 1(2) s g have "y = (Panics x, w1, p1)" by simp
    with f s show ?thesis by simp
  next
    case Blocks
    with 1(2) s g have "y = (Blocks, w1, p1)" by simp
    with f s show ?thesis by simp
  qed
qed

lemma Acquire_frame:
  assumes "Acquire (w, p) = Some (r, w', p')"
  shows "maxCap p' = maxCap p \<and> minCap p' = minCap p \<and> closed p' = closed p \<and>
     maxLifeTime p' = maxLifeTime p \<and> factoryFunc p' = factoryFunc p \<and>
     closeFunc p' = closeFunc p \<and> cap (pool p') = cap (pool p) \<and>
     chclosed (pool p') = chclosed (pool p) \<and>
     clock w' = clock w \<and> closeLog w' = closeLog w \<and>
     clockReads w \<le> clockReads w' \<and>
     curNum p' - int (created w') = curNum p - int (created w) \<and>
     curNum p \<le> curNum p' \<and>
     (curNum p \<le> maxCap p \<longrightarrow> curNum p' \<le> maxCap p) \<and>
     length (buf (pool p')) \<le> length (buf (pool p))"
proof (cases "closed p")
  case True
  with assms show ?thesis by (simp add: Acquire_def)
next
  case False
  with assms have "Acquire_loop (w, p) = Some (r, w', p')" by (simp add: Acquire_def)
  from Acquire_loop_frame_aux [OF this] show ?thesis by simp
qed

lemma Acquire_loop_fresh_aux:
  assumes "Acquire_loop s = Some y"
  shows "0 < sint (maxLifeTime (snd s)) \<longrightarrow>
     (\<forall>obj w' p'. y = (Returns (obj, None), w', p') \<longrightarrow>
        clockReads (fst s) < clockReads w' \<and>
        sint (clock (fst s) (clockReads w' - 1)) - sint (CreateTime obj)
          < sint (maxLifeTime (snd s)))"
  using assms
proof (induction rule: Acquire_loop.raw_induct [rotated 1, consumes 1])
  case (1 loop s y)
  obtain w p where s: "s = (w, p)" by (cases s)
  obtain r w1 p1 where g: "getOrCreate (w, p) = (r, w1, p1)" by (cases "getOrCreate (w, p)")
  note f = getOrCreate_frame [OF g]
  show ?case
  proof (intro impI allI)
    fix obj w' p'
    assume pos: "0 < sint (maxLifeTime (snd s))" and y: "y = (Returns (obj, None), w', p')"
    from pos s f have pos1: "0 < sint (maxLifeTime p1)" by simp
    let ?w2 = "w1\<lparr>clockReads := Suc (clockReads w1)\<rparr>"
    from 1(2) y s g obtain obj1 where r: "r = Returns (obj1, None)"
      by (cases r) (auto split: option.splits if_splits prod.splits)
    show "clockReads (fst s) < clockReads w' \<and>
        sint (clock (fst s) (clockReads w' - 1)) - sint (CreateTime obj)
          < sint (maxLifeTime (snd s))"
    proof (cases "expired_at (maxLifeTime p1) (CreateTime obj1) (clock w1 (clockReads w1))")
      case True
      with 1(2) s g r pos1 have "loop (?w2, p1) = Some y"
        by (simp add: isLiftTimeOut_eq)
      from 1(1) [OF this] pos1 y
      have "clockReads ?w2 < clockReads w' \<and>
        sint (clock ?w2 (clockReads w' - 1)) - sint (CreateTime obj) < sint (maxLifeTime p1)"
        by simp
      with f s show ?thesis by simp
    next
      case False
      with 1(2) s g r pos1 have "y = (Returns (obj1, None), ?w2, p1)"
        by (simp add: isLiftTimeOut_eq)
      with y have e: "obj = obj1" "w' = ?w2" by simp_all
      from False pos1 old_is_expired [of "maxLifeTime p1" "clock w1 (clockReads w1)" "CreateTime obj1"]
      have "sint (clock w1 (clockReads w1)) - sint (CreateTime obj1) < sint (maxLifeTime p1)"
        by force
      with e f s show ?thesis by simp
    qed
  qed
qed

subsection \<open>The concrete pool\<close>


lemma demo_late_getOrCreate:
  "getOrCreate (demo_world jump, demo_pool) =
     (Returns (\<lparr>CreateTime = 100, Object = Some 0\<rparr>, None), demo_world jump,
      demo_pool\<lparr>pool := (pool demo_pool)\<lparr>buf := [\<lparr>CreateTime = 100, Object = Some 1\<rparr>,
         \<lparr>CreateTime = 100, Object = Some 2\<rparr>]\<rparr>\<rparr>)"
  by (rule getOrCreate_idle) (simp add: demo_pool_def)

lemma demo_late_Acquire:
  "Acquire (demo_world jump, demo_pool) =
     Some (Returns (\<lparr>CreateTime = 110, Object = Some 3\<rparr>, None),
       (demo_world jump)\<lparr>clockReads := 6,
          factoryLog := [Inr (Some 0), Inr (Some 1), Inr (Some 2), Inr (Some 3)]\<rparr>,
       demo_pool\<lparr>pool := (pool demo_pool)\<lparr>buf := []\<rparr>, curNum := 4\<rparr>)"
  apply (simp add: Acquire_def demo_pool_def)
  apply (subst Acquire_loop.simps)
  apply (simp add: getOrCreate_def chan_try_recv_def chan_recv_def isLiftTimeOut_def
      time_Now_def demo_world_def jump_def)
  apply (subst Acquire_loop.simps)
  apply (simp add: getOrCreate_def chan_try_recv_def chan_recv_def isLiftTimeOut_def
      time_Now_def demo_world_def jump_def)
  apply (subst Acquire_loop.simps)
  apply (simp add: getOrCreate_def chan_try_recv_def chan_recv_def isLiftTimeOut_def
      time_Now_def demo_world_def jump_def)
  apply (subst Acquire_loop.simps)
  apply (simp add: getOrCreate_def chan_try_recv_def chan_recv_def isLiftTimeOut_def
      time_Now_def demo_world_def jump_def call_factory_def Let_def cfg_demo_def)
  done

subsection \<open>The drain of Shutdown\<close>

text \<open>
  The loop over the closed channel when every destructor call succeeds, when
  the call for the resource at position \<open>i\<close> is the first to fail, and what
  the loop leaves alone in either case.
\<close>

lemma drain_all_succeed:
  assumes "buf (pool p) = xs"
    and "\<forall>i<length xs. closeFunc p (length (closeLog w) + i) (Object (xs ! i)) = None"
  shows "drain xs (w, p) =
     (None, w\<lparr>closeLog := closeLog w @ map (\<lambda>x. (Object x, None)) xs\<rparr>,
      p\<lparr>pool := (pool p)\<lparr>buf := []\<rparr>, curNum := curNum p - int (length xs)\<rparr>)"
  using assms
proof (induction xs arbitrary: w p)
  case Nil
  then show ?case by simp
next
  case (Cons x xs)
  let ?w1 = "w\<lparr>closeLog := closeLog w @ [(Object x, None)]\<rparr>"
  let ?p1 = "p\<lparr>pool := (pool p)\<lparr>buf := xs\<rparr>, curNum := curNum p - 1\<rparr>"
  from Cons.prems(2) have h: "closeFunc p (length (closeLog w)) (Object x) = None"
    by force
  have a: "buf (pool ?p1) = xs" by simp
  have b: "\<forall>i<length xs. closeFunc ?p1 (length (closeLog ?w1) + i) (Object (xs ! i)) = None"
  proof (intro allI impI)
    fix i assume "i < length xs"
    then have "Suc i < length (x # xs)" by simp
    with Cons.prems(2)
    have "closeFunc p (length (closeLog w) + Suc i) (Object ((x # xs) ! Suc i)) = None"
      by blast
    then show "closeFunc ?p1 (length (closeLog ?w1) + i) (Object (xs ! i)) = None"
      by simp
  qed
  have "drain (x # xs) (w, p) = drain xs (?w1, ?p1)"
    using h by (simp add: call_close_def Let_def)
  also note Cons.IH [OF a b]
  finally show ?case by simp
qed

lemma drain_first_failure:
  assumes "i < length xs"
    and "\<forall>j<i. closeFunc p (length (closeLog w) + j) (Object (xs ! j)) = None"
    and "closeFunc p (length (closeLog w) + i) (Object (xs ! i)) = Some err"
  shows "drain xs (w, p) =
     (Some err,
      w\<lparr>closeLog := closeLog w @ map (\<lambda>x. (Object x, None)) (take i xs) @
         [(Object (xs ! i), Some err)]\<rparr>,
      p\<lparr>pool := (pool p)\<lparr>buf := drop (Suc i) xs\<rparr>, curNum := curNum p - int i\<rparr>)"
  using assms
proof (induction xs arbitrary: i w p)
  case Nil
  then show ?case by simp
next
  case (Cons x xs)
  show ?case
  proof (cases i)
    case 0
    with Cons.prems(3) show ?thesis
      by (simp add: call_close_def Let_def)
  next
    case (Suc k)
    let ?w1 = "w\<lparr>closeLog := closeLog w @ [(Object x, None)]\<rparr>"
    let ?p1 = "p\<lparr>pool := (pool p)\<lparr>buf := xs\<rparr>, curNum := curNum p - 1\<rparr>"
    from Cons.prems(2) Suc have h: "closeFunc p (length (closeLog w)) (Object x) = None"
      by force
    have a: "k < length xs" using Cons.prems(1) Suc by simp
    have b: "\<forall>j<k. closeFunc ?p1 (length (closeLog ?w1) + j) (Object (xs ! j)) = None"
    proof (intro allI impI)
      fix j assume "j < k"
      then have "Suc j < i" using Suc by simp
      with Cons.prems(2)
      have "closeFunc p (length (closeLog w) + Suc j) (Object ((x # xs) ! Suc j)) = None"
        by blast
      then show "closeFunc ?p1 (length (closeLog ?w1) + j) (Object (xs ! j)) = None"
        by simp
    qed
    have c: "closeFunc ?p1 (length (closeLog ?w1) + k) (Object (xs ! k)) = Some err"
      using Cons.prems(3) Suc by simp
    have "drain (x # xs) (w, p) = drain xs (?w1, ?p1)"
      using h by (simp add: call_close_def Let_def)
    also note Cons.IH [OF a b c]
    finally show ?thesis using Suc by simp
  qed
qed

lemma drain_frame:
  assumes "drain xs (w, p) = (e, w', p')"
  shows "maxCap p' = maxCap p \<and> minCap p' = minCap p \<and> closed p' = closed p \<and>
     maxLifeTime p' = maxLifeTime p \<and> factoryFunc p' = factoryFunc p \<and>
     closeFunc p' = closeFunc p \<and> cap (pool p') = cap (pool p) \<and>
     chclosed (pool p') = chclosed (pool p) \<and>
     clock w' = clock w \<and> clockReads w' = clockReads w \<and> factoryLog w' = factoryLog w \<and>
     curNum p' + int (destroyed w') = curNum p + int (destroyed w) \<and>
     curNum p' \<le> curNum p"
  using assms
proof (induction xs arbitrary: w p)
  case Nil
  then show ?case by simp
next
  case (Cons x xs)
  let ?p1 = "p\<lparr>pool := (pool p)\<lparr>buf := xs\<rparr>\<rparr>"
  show ?case
  proof (cases "closeFunc p (length (closeLog w)) (Object x)")
    case None
    let ?w1 = "w\<lparr>closeLog := closeLog w @ [(Object x, None)]\<rparr>"
    from Cons.prems None have "drain xs (?w1, ?p1\<lparr>curNum := curNum ?p1 - 1\<rparr>) = (e, w', p')"
      by (simp add: call_close_def Let_def)
    from Cons.IH [OF this] show ?thesis by (auto simp: created_def)
  next
    case (Some err)
    with Cons.prems have "w' = w\<lparr>closeLog := closeLog w @ [(Object x, Some err)]\<rparr>"
      and "p' = ?p1"
      by (auto simp: call_close_def Let_def)
    then show ?thesis by simp
  qed
qed

lemma Shutdown_open:
  assumes "\<not> closed p" and "\<not> chclosed (pool p)"
  shows "Shutdown (w, p) =
     (case drain (buf (pool p)) (w, p\<lparr>pool := (pool p)\<lparr>chclosed := True\<rparr>\<rparr>) of
        (Some err, w', p') \<Rightarrow> (Returns (Some err), w', p')
      | (None, w', p') \<Rightarrow> (Returns None, w', p'\<lparr>closed := True\<rparr>))"
  using assms by (simp add: Shutdown_def chan_close_def)

lemma busy_construction:
  "NewGenericPool cfg_busy (init_world still) =
     (Returns (Some busy_pool, None), demo_world still)"
  by (simp add: NewGenericPool_def cfg_busy_def cfg_demo_def init_world_def time_Now_def
      make_chan_def maxChanCap_def numeral_nat call_factory_def chan_send_def Let_def busy_pool_def
      demo_pool_def demo_world_def still_def)

lemma busy_Shutdown:
  "Shutdown (demo_world still, busy_pool) =
     (Returns (Some (ErrOther ''busy'')), limbo_world, limbo_pool)"
  by (simp add: Shutdown_def chan_close_def call_close_def Let_def busy_pool_def demo_pool_def
      demo_world_def cfg_flaky_def limbo_world_def limbo_pool_def)

subsection \<open>Programs on a closed pool, and on a pool with a closed channel\<close>

text \<open>
  On a closed pool every program runs to its end: \<open>Acquire\<close>,
  \<open>Release\<close> and \<open>Shutdown\<close> return \<open>ErrPoolClosed\<close>, and the
  destructor is called by the \<open>Close\<close> calls only. A pool whose channel is
  closed while its flag is unset stays so after every call that returns.
\<close>

lemma Close_accounting_aux:
  "\<exists>r w' p'. Close poolObj (w, p) = (Returns r, w', p') \<and>
     w' = w\<lparr>closeLog := closeLog w @ [(Object poolObj, r)]\<rparr> \<and>
     closed p' = closed p \<and> pool p' = pool p \<and> maxCap p' = maxCap p \<and>
     curNum p' = curNum p - (if r = None then 1 else 0)"
  by (cases "closeFunc p (length (closeLog w)) (Object poolObj)")
    (simp_all add: Close_def call_close_def Let_def)

lemma run_closed:
  assumes "closed p"
  shows "\<exists>rs w' p' es. run cs (w, p) = Some (rs, w', p') \<and> list_all2 closed_reply cs rs \<and>
     closed p' \<and> closeLog w' = closeLog w @ es \<and> map fst es = close_args cs"
  using assms
proof (induction cs arbitrary: w p)
  case Nil
  then show ?case by simp
next
  case (Cons c cs)
  show ?case
  proof (cases c)
    case CallAcquire
    from Cons.prems have e: "exec c (w, p) =
        Some (Returns (AcquireReply zeroPoolObject (Some ErrPoolClosed)), w, p)"
      by (simp add: exec_def CallAcquire Acquire_def)
    from Cons.IH [OF Cons.prems, of w] e CallAcquire show ?thesis by auto
  next
    case (CallRelease obj)
    from Cons.prems have e: "exec c (w, p) = Some (Returns (ErrorReply (Some ErrPoolClosed)), w, p)"
      by (simp add: exec_def CallRelease Release_def)
    from Cons.IH [OF Cons.prems, of w] e CallRelease show ?thesis by auto
  next
    case CallShutdown
    from Cons.prems have e: "exec c (w, p) = Some (Returns (ErrorReply (Some ErrPoolClosed)), w, p)"
      by (simp add: exec_def CallShutdown Shutdown_def)
    from Cons.IH [OF Cons.prems, of w] e CallShutdown show ?thesis by auto
  next
    case (CallClose obj)
    obtain r w1 p1 where k: "Close obj (w, p) = (Returns r, w1, p1)"
      "w1 = w\<lparr>closeLog := closeLog w @ [(Object obj, r)]\<rparr>" "closed p1 = closed p"
      using Close_accounting_aux [of obj w p] by blast
    then have e: "exec c (w, p) = Some (Returns (ErrorReply r), w1, p1)"
      by (simp add: exec_def CallClose)
    from Cons.prems k(3) have "closed p1" by simp
    from Cons.IH [OF this, of w1] obtain rs w' p' es where
      "run cs (w1, p1) = Some (rs, w', p')" "list_all2 closed_reply cs rs" "closed p'"
      "closeLog w' = closeLog w1 @ es" "map fst es = close_args cs"
      by blast
    with e k(2) CallClose show ?thesis
      by (intro exI [of _ "ErrorReply r # rs"] exI [of _ w'] exI [of _ p']
          exI [of _ "(Object obj, r) # es"]) simp
  qed
qed

lemma exec_limbo:
  assumes "chclosed (pool p)" and "\<not> closed p" and "exec c (w, p) = Some (Returns r, w', p')"
  shows "chclosed (pool p') \<and> \<not> closed p'"
proof (cases c)
  case CallAcquire
  with assms(3) obtain r0 where "Acquire (w, p) = Some (r0, w', p')"
    by (auto simp: exec_def split: option.splits)
  from Acquire_frame [OF this] assms(1,2) show ?thesis by simp
next
  case (CallRelease obj)
  with assms show ?thesis
    by (auto simp: exec_def Release_def isLiftTimeOut_eq chan_send_def split: if_splits)
next
  case (CallClose obj)
  with assms(3) obtain r0 where k: "Close obj (w, p) = (r0, w', p')"
    by (auto simp: exec_def split: prod.splits)
  from Close_accounting_aux [of obj w p] k assms(1,2) show ?thesis by auto
next
  case CallShutdown
  with assms show ?thesis
    by (auto simp: exec_def Shutdown_def chan_close_def)
qed

lemma run_limbo:
  assumes "chclosed (pool p)" and "\<not> closed p" and "run cs (w, p) = Some (rs, w', p')"
  shows "chclosed (pool p') \<and> \<not> closed p'"
  using assms
proof (induction cs arbitrary: w p rs)
  case Nil
  then show ?case by simp
next
  case (Cons c cs)
  from Cons.prems(3) obtain r w1 p1 rs1 where e: "exec c (w, p) = Some (Returns r, w1, p1)"
    and r: "run cs (w1, p1) = Some (rs1, w', p')"
    by (auto split: option.splits outcome.splits prod.splits)
  from exec_limbo [OF Cons.prems(1,2) e] have "chclosed (pool p1)" "\<not> closed p1" by simp_all
  from Cons.IH [OF this r] show ?case .
qed

subsection \<open>The pool of one resource\<close>

lemma single_construction:
  "NewGenericPool cfg_single (init_world still) = (Returns (Some single_pool, None), single_world)"
  by (simp add: NewGenericPool_def cfg_single_def init_world_def time_Now_def make_chan_def
      maxChanCap_def
      call_factory_def chan_send_def Let_def single_pool_def single_world_def still_def)

lemma single_Acquire:
  "Acquire (single_world, single_pool) =
     Some (Returns (\<lparr>CreateTime = 100, Object = Some 0\<rparr>, None), single_world,
       single_pool\<lparr>pool := (pool single_pool)\<lparr>buf := []\<rparr>\<rparr>)"
proof -
  have g: "getOrCreate (single_world, single_pool) =
      (Returns (\<lparr>CreateTime = 100, Object = Some 0\<rparr>, None), single_world,
       single_pool\<lparr>pool := (pool single_pool)\<lparr>buf := []\<rparr>\<rparr>)"
    by (rule getOrCreate_idle) (simp add: single_pool_def)
  have f: "\<not> expired_at (maxLifeTime (single_pool\<lparr>pool := (pool single_pool)\<lparr>buf := []\<rparr>\<rparr>))
      (CreateTime \<lparr>CreateTime = 100, Object = Some (0::nat)\<rparr>)
      (clock single_world (clockReads single_world))"
    by (simp add: expired_at_def single_pool_def)
  from Acquire_loop_fresh [OF g f] show ?thesis
    by (simp add: Acquire_def single_pool_def)
qed


subsection \<open>Four calls of Acquire in a row\<close>






subsection \<open>The counter against the logs\<close>

text \<open>
  Every call keeps the counter at or below the maximum and equal to the number
  of resources created minus the number destroyed, and so does every program.
\<close>

lemma destroyed_closeLog:
  "closeLog w' = closeLog w \<Longrightarrow> destroyed w' = destroyed w"
  by (simp add: destroyed_def)

lemma created_factoryLog:
  "factoryLog w' = factoryLog w \<Longrightarrow> created w' = created w"
  by (simp add: created_def)

lemma exec_accounting:
  assumes "exec c (w, p) = Some (r, w', p')"
    and "curNum p \<le> maxCap p" and "curNum p = int (created w) - int (destroyed w)"
  shows "maxCap p' = maxCap p \<and> curNum p' \<le> maxCap p' \<and>
     curNum p' = int (created w') - int (destroyed w')"
proof (cases c)
  case CallAcquire
  with assms(1) obtain r0 where "Acquire (w, p) = Some (r0, w', p')"
    by (auto simp: exec_def split: option.splits)
  from Acquire_frame [OF this] assms(2,3) destroyed_closeLog [of w' w]
  show ?thesis by simp
next
  case (CallRelease obj)
  with assms(1) obtain r0 where "Release obj (w, p) = (r0, w', p')"
    by (auto simp: exec_def split: prod.splits)
  then have "maxCap p' = maxCap p \<and> curNum p' = curNum p \<and>
      created w' = created w \<and> destroyed w' = destroyed w"
    by (auto simp: Release_def isLiftTimeOut_eq split: if_splits outcome.splits)
  with assms(2,3) show ?thesis by simp
next
  case (CallClose obj)
  with assms(1) obtain r0 where k: "Close obj (w, p) = (r0, w', p')"
    by (auto simp: exec_def split: prod.splits)
  from Close_accounting_aux [of obj w p] k assms(2,3) show ?thesis by auto
next
  case CallShutdown
  with assms(1) obtain r0 where k: "Shutdown (w, p) = (r0, w', p')"
    by (auto simp: exec_def split: prod.splits)
  show ?thesis
  proof (cases "closed p \<or> chclosed (pool p)")
    case True
    with k have "w' = w" "p' = p"
      by (auto simp: Shutdown_def chan_close_def split: if_splits)
    with assms(2,3) show ?thesis by simp
  next
    case False
    let ?p0 = "p\<lparr>pool := (pool p)\<lparr>chclosed := True\<rparr>\<rparr>"
    obtain e w1 p1 where d: "drain (buf (pool p)) (w, ?p0) = (e, w1, p1)"
      by (cases "drain (buf (pool p)) (w, ?p0)")
    from k False d have "w' = w1" and "p' = p1 \<or> p' = p1\<lparr>closed := True\<rparr>"
      by (auto simp: Shutdown_open split: option.splits)
    with drain_frame [OF d] assms(2,3) created_factoryLog [of w1 w]
    show ?thesis by auto
  qed
qed

lemma run_accounting:
  assumes "run cs (w, p) = Some (rs, w', p')"
    and "curNum p \<le> maxCap p" and "curNum p = int (created w) - int (destroyed w)"
  shows "maxCap p' = maxCap p \<and> curNum p' \<le> maxCap p' \<and>
     curNum p' = int (created w') - int (destroyed w')"
  using assms
proof (induction cs arbitrary: w p rs)
  case Nil
  then show ?case by simp
next
  case (Cons c cs)
  from Cons.prems(1) obtain r w1 p1 rs1 where e: "exec c (w, p) = Some (Returns r, w1, p1)"
    and r: "run cs (w1, p1) = Some (rs1, w', p')"
    by (auto split: option.splits outcome.splits prod.splits)
  from exec_accounting [OF e Cons.prems(2,3)]
  have m: "maxCap p1 = maxCap p" and b: "curNum p1 \<le> maxCap p1"
    and a: "curNum p1 = int (created w1) - int (destroyed w1)"
    by simp_all
  from Cons.IH [OF r b a] m show ?case by simp
qed

section \<open>The claims\<close>

subsection \<open>Rejected configurations\<close>

text \<open>
  Claim C8. \<open>NewGenericPool\<close> returns \<open>ErrInvalidConfig\<close> with a
  \<open>nil\<close> pool, and calls nothing, exactly when \<open>Max \<le> 0\<close> or
  \<open>Min > Max\<close>. For every other configuration it never returns
  \<open>ErrInvalidConfig\<close>: when \<open>make\<close> can provide the channel it
  returns a pool, with another error or none, and when \<open>make\<close> cannot,
  the construction stops in \<open>make\<close> and returns nothing.
\<close>

theorem construction_invalid_config:
  "(Max_cfg config \<le> 0 \<or> Min_cfg config > Max_cfg config \<longrightarrow>
      NewGenericPool config w = (Returns (None, Some ErrInvalidConfig), w)) \<and>
   (\<not> (Max_cfg config \<le> 0 \<or> Min_cfg config > Max_cfg config) \<longrightarrow>
      (\<forall>pp w'. NewGenericPool config w \<noteq> (Returns (pp, Some ErrInvalidConfig), w')) \<and>
      (Max_cfg config \<le> chanLimit w \<longrightarrow>
         (\<exists>p e w'. NewGenericPool config w = (Returns (Some p, e), w') \<and>
            e \<noteq> Some ErrInvalidConfig)) \<and>
      (chanLimit w < Max_cfg config \<longrightarrow>
         NewGenericPool config w = (Panics MakeChanFailed, w)))"
proof (intro conjI impI)
  assume "Max_cfg config \<le> 0 \<or> Min_cfg config > Max_cfg config"
  then show "NewGenericPool config w = (Returns (None, Some ErrInvalidConfig), w)"
    by (simp add: NewGenericPool_def)
next
  assume v: "\<not> (Max_cfg config \<le> 0 \<or> Min_cfg config > Max_cfg config)"
    and l: "Max_cfg config \<le> chanLimit w"
  from NewGenericPool_valid [OF v l]
  obtain p w' where "NewGenericPool config w =
      (Returns (Some p, if curNum p = 0 then Some ErrFactoryFunc else None), w')"
    by blast
  then show "\<exists>p e w'. NewGenericPool config w = (Returns (Some p, e), w') \<and>
      e \<noteq> Some ErrInvalidConfig"
    by (intro exI [of _ p] exI [of _ "if curNum p = 0 then Some ErrFactoryFunc else None"]
        exI [of _ w']) simp
next
  assume v: "\<not> (Max_cfg config \<le> 0 \<or> Min_cfg config > Max_cfg config)"
    and l: "chanLimit w < Max_cfg config"
  from NewGenericPool_make_fails [OF v l]
  show "NewGenericPool config w = (Panics MakeChanFailed, w)" .
next
  assume v: "\<not> (Max_cfg config \<le> 0 \<or> Min_cfg config > Max_cfg config)"
  show "\<forall>pp w'. NewGenericPool config w \<noteq> (Returns (pp, Some ErrInvalidConfig), w')"
  proof (cases "Max_cfg config \<le> chanLimit w")
    case True
    from NewGenericPool_valid [OF v True]
    obtain p w1 where "NewGenericPool config w =
        (Returns (Some p, if curNum p = 0 then Some ErrFactoryFunc else None), w1)"
      by blast
    then show ?thesis by simp
  next
    case False
    then have "chanLimit w < Max_cfg config" by simp
    from NewGenericPool_make_fails [OF v this] show ?thesis by simp
  qed
qed

theorem construction_invalid_config_witness:
  "(Max_cfg cfg_bad \<le> 0 \<or> Min_cfg cfg_bad > Max_cfg cfg_bad) \<and>
   NewGenericPool cfg_bad (init_world still) =
     (Returns (None, Some ErrInvalidConfig), init_world still) \<and>
   \<not> (Max_cfg cfg_demo \<le> 0 \<or> Min_cfg cfg_demo > Max_cfg cfg_demo) \<and>
   Max_cfg cfg_demo \<le> chanLimit (init_world still :: nat world) \<and>
   (\<exists>p e w'. NewGenericPool cfg_demo (init_world still) = (Returns (Some p, e), w') \<and>
      e \<noteq> Some ErrInvalidConfig) \<and>
   \<not> (Max_cfg cfg_huge_cold \<le> 0 \<or> Min_cfg cfg_huge_cold > Max_cfg cfg_huge_cold) \<and>
   chanLimit (init_world still :: nat world) < Max_cfg cfg_huge_cold \<and>
   NewGenericPool cfg_huge_cold (init_world still) = (Panics MakeChanFailed, init_world still)"
proof -
  let ?w = "init_world still :: nat world"
  have b: "Max_cfg cfg_bad \<le> 0 \<or> Min_cfg cfg_bad > Max_cfg cfg_bad"
    by (simp add: cfg_bad_def)
  have d: "\<not> (Max_cfg cfg_demo \<le> 0 \<or> Min_cfg cfg_demo > Max_cfg cfg_demo)"
    by (simp add: cfg_demo_def)
  have dl: "Max_cfg cfg_demo \<le> chanLimit ?w"
    by (simp add: cfg_demo_def init_world_def maxChanCap_def)
  have g: "\<not> (Max_cfg cfg_huge_cold \<le> 0 \<or> Min_cfg cfg_huge_cold > Max_cfg cfg_huge_cold)"
    by (simp add: cfg_huge_cold_def)
  have gl: "chanLimit ?w < Max_cfg cfg_huge_cold"
    by (simp add: cfg_huge_cold_def init_world_def maxChanCap_def)
  show ?thesis
    using b d dl g gl construction_invalid_config [of cfg_bad ?w]
      construction_invalid_config [of cfg_demo ?w]
      construction_invalid_config [of cfg_huge_cold ?w]
    by blast
qed

subsection \<open>Construction and warm-up\<close>

text \<open>
  Claim C5, as amended. For a configuration with \<open>0 \<le> Min \<le> Max\<close> and
  \<open>0 < Max\<close>, and on a machine where \<open>make\<close> can provide a channel
  of capacity \<open>Max\<close>, \<open>NewGenericPool\<close> returns a pool. It calls the factory once per warm-up
  iteration, \<open>Min\<close> times in all, whatever the earlier calls returned, so a
  failing call is skipped and the loop goes on. The idle count is the number of
  resources created, between 0 and \<open>Min\<close>; the counter equals the idle count
  and is at most \<open>Max\<close>. The error is \<open>ErrFactoryFunc\<close> exactly when the
  counter is 0, and \<open>nil\<close> otherwise. The pool is open, and when it is empty
  the next \<open>Acquire\<close> creates a resource if the factory then succeeds and
  the new resource has not expired at its check.
\<close>

theorem construction_warm_up:
  assumes "0 \<le> Min_cfg config" and "Min_cfg config \<le> Max_cfg config" and "0 < Max_cfg config"
    and "Max_cfg config \<le> chanLimit w"
  shows "\<exists>p e w'. NewGenericPool config w = (Returns (Some p, e), w') \<and>
      factoryLog w' = factoryLog w @
        map (FactoryFunc config)
          [length (factoryLog w)..<length (factoryLog w) + nat (Min_cfg config)] \<and>
      int (length (factoryLog w')) - int (length (factoryLog w)) \<le> Min_cfg config \<and>
      Len p = created w' - created w \<and>
      0 \<le> int (Len p) \<and> int (Len p) \<le> Min_cfg config \<and>
      curNum p = int (Len p) \<and> curNum p \<le> Max_cfg config \<and>
      maxCap p = Max_cfg config \<and>
      (e = Some ErrFactoryFunc \<longleftrightarrow> curNum p = 0) \<and>
      (e = None \<longleftrightarrow> curNum p \<noteq> 0) \<and>
      \<not> IsClosed p \<and> \<not> chclosed (pool p) \<and>
      (curNum p = 0 \<longrightarrow>
         (\<forall>obj. FactoryFunc config (length (factoryLog w')) = Inr obj \<longrightarrow>
            \<not> expired_at (LiftTime config) (clock w' (clockReads w'))
                (clock w' (Suc (clockReads w'))) \<longrightarrow>
            (\<exists>w'' p''. Acquire (w', p) =
               Some (Returns (\<lparr>CreateTime = clock w' (clockReads w'), Object = obj\<rparr>, None),
                 w'', p'') \<and> curNum p'' = 1)))"
proof -
  have v: "\<not> (Max_cfg config \<le> 0 \<or> Min_cfg config > Max_cfg config)"
    using assms by simp
  from NewGenericPool_valid [OF v assms(4)]
  obtain p w' where H:
    "NewGenericPool config w =
        (Returns (Some p, if curNum p = 0 then Some ErrFactoryFunc else None), w')"
    "w' = w\<lparr>clockReads := Suc (clockReads w), factoryLog := factoryLog w'\<rparr>"
    "factoryLog w' = factoryLog w @
        map (FactoryFunc config)
          [length (factoryLog w)..<length (factoryLog w) + nat (Min_cfg config)]"
    "p = \<lparr>pool = \<lparr>buf = buf (pool p), cap = Max_cfg config, chclosed = False\<rparr>,
           maxCap = Max_cfg config, minCap = Min_cfg config, curNum = curNum p,
           closed = False, maxLifeTime = LiftTime config,
           factoryFunc = FactoryFunc config, closeFunc = CloseFunc config\<rparr>"
    "curNum p = int (created w') - int (created w)"
    "int (length (buf (pool p))) = int (created w') - int (created w)"
    "created w \<le> created w'" "created w' \<le> created w + nat (Min_cfg config)"
    by blast
  have f: "closed p = False" "chclosed (pool p) = False" "maxCap p = Max_cfg config"
    "maxLifeTime p = LiftTime config" "factoryFunc p = FactoryFunc config"
    by (subst H(4), simp)+
  have n: "int (length (factoryLog w')) - int (length (factoryLog w)) \<le> Min_cfg config"
    using assms(1) by (subst H(3)) simp
  have l: "Len p = created w' - created w"
    using H(6) H(7) by (simp add: Len_def)
  have l2: "int (Len p) \<le> Min_cfg config" "curNum p = int (Len p)"
    "curNum p \<le> Max_cfg config"
    using H(5-8) assms by (simp_all add: Len_def)
  have u: "\<exists>w'' p''. Acquire (w', p) =
       Some (Returns (\<lparr>CreateTime = clock w' (clockReads w'), Object = obj\<rparr>, None),
         w'', p'') \<and> curNum p'' = 1"
    if z: "curNum p = 0" and o: "FactoryFunc config (length (factoryLog w')) = Inr obj"
      and x: "\<not> expired_at (LiftTime config) (clock w' (clockReads w'))
                (clock w' (Suc (clockReads w')))" for obj
  proof -
    have a1: "\<not> closed p" and a3: "\<not> chclosed (pool p)" using f by simp_all
    have a2: "buf (pool p) = []" using z l2(2) by (simp add: Len_def)
    have a4: "curNum p < maxCap p" using z f(3) assms(3) by simp
    have a5: "factoryFunc p (length (factoryLog w')) = Inr obj" using o f(5) by simp
    have a6: "\<not> expired_at (maxLifeTime p) (clock w' (clockReads w'))
        (clock w' (Suc (clockReads w')))" using x f(4) by simp
    show ?thesis
      using Acquire_creates [OF a1 a2 a3 a4 a5 a6] z by simp
  qed
  show ?thesis
    using H(1) H(3) n l l2 f(1,2,3) u
    by (intro exI [of _ p] exI [of _ "if curNum p = 0 then Some ErrFactoryFunc else None"]
        exI [of _ w']) (simp add: IsClosed_def)
qed

theorem construction_warm_up_witness:
  "0 \<le> Min_cfg cfg_flaky \<and> Min_cfg cfg_flaky \<le> Max_cfg cfg_flaky \<and> 0 < Max_cfg cfg_flaky \<and>
   Max_cfg cfg_flaky \<le> chanLimit (init_world still :: nat world) \<and>
   (\<exists>p w'. NewGenericPool cfg_flaky (init_world still) = (Returns (Some p, None), w') \<and>
      factoryLog w' = [Inr (Some 0), Inl (ErrOther ''dial''), Inr (Some 2)] \<and>
      Len p = 2 \<and> curNum p = 2)"
proof -
  have h: "0 \<le> Min_cfg cfg_flaky" "Min_cfg cfg_flaky \<le> Max_cfg cfg_flaky"
    "0 < Max_cfg cfg_flaky"
    by (simp_all add: cfg_flaky_def)
  have k: "Max_cfg cfg_flaky \<le> chanLimit (init_world still :: nat world)"
    by (simp add: cfg_flaky_def init_world_def maxChanCap_def)
  from construction_warm_up [OF h k] show ?thesis
  proof (elim exE conjE)
    fix p e w'
    assume H: "NewGenericPool cfg_flaky (init_world still) = (Returns (Some p, e), w')"
      "factoryLog w' = factoryLog (init_world still) @
        map (FactoryFunc cfg_flaky)
          [length (factoryLog (init_world still))..<
           length (factoryLog (init_world still)) + nat (Min_cfg cfg_flaky)]"
      "Len p = created w' - created (init_world still)"
      "curNum p = int (Len p)"
      "(e = None) = (curNum p \<noteq> 0)"
    have l: "factoryLog w' = [Inr (Some 0), Inl (ErrOther ''dial''), Inr (Some 2)]"
      using H(2) by (simp add: cfg_flaky_def init_world_def upt_rec numeral_nat)
    have c: "Len p = 2"
      using H(3) l by (simp add: created_def init_world_def)
    have "curNum p = 2" "e = None"
      using H(4,5) c by simp_all
    with H(1) l c h k show ?thesis by blast
  qed
qed

text \<open>
  The claim as first stated speaks of every valid configuration. The check of
  \<open>NewGenericPool\<close> puts no upper bound on \<open>Max\<close>: with
  \<open>Min = 3\<close> and \<open>Max = 2 ^ 62\<close> the configuration is valid, and the
  construction stops in \<open>make\<close> before the clock is read or the factory
  called, so that no pool is returned.
\<close>

theorem construction_warm_up_counterexample:
  "0 \<le> Min_cfg cfg_huge_warm \<and> Min_cfg cfg_huge_warm \<le> Max_cfg cfg_huge_warm \<and>
   0 < Max_cfg cfg_huge_warm \<and>
   NewGenericPool cfg_huge_warm (init_world still) = (Panics MakeChanFailed, init_world still)"
  by (simp add: NewGenericPool_def make_chan_def cfg_huge_warm_def init_world_def
      maxChanCap_def)

subsection \<open>Construction without warm-up\<close>

text \<open>
  Claim C10, as amended. For a configuration with \<open>Min \<le> 0\<close> and
  \<open>0 < Max\<close>, and on a machine where \<open>make\<close> can provide a channel
  of capacity \<open>Max\<close>, \<open>NewGenericPool\<close> makes no factory call and still returns
  \<open>ErrFactoryFunc\<close>, together with a pool that is open and empty (idle
  count 0, counter 0). The pool is usable: the next \<open>Acquire\<close> creates a
  resource if the factory then succeeds and the new resource has not expired
  at its check.
\<close>

theorem construction_without_warm_up:
  assumes "Min_cfg config \<le> 0" and "0 < Max_cfg config"
    and "Max_cfg config \<le> chanLimit w"
  shows "\<exists>p w'. NewGenericPool config w = (Returns (Some p, Some ErrFactoryFunc), w') \<and>
      factoryLog w' = factoryLog w \<and>
      Len p = 0 \<and> curNum p = 0 \<and> maxCap p = Max_cfg config \<and>
      \<not> IsClosed p \<and> \<not> chclosed (pool p) \<and>
      (\<forall>obj. FactoryFunc config (length (factoryLog w')) = Inr obj \<longrightarrow>
         \<not> expired_at (LiftTime config) (clock w' (clockReads w'))
             (clock w' (Suc (clockReads w'))) \<longrightarrow>
         (\<exists>w'' p''. Acquire (w', p) =
            Some (Returns (\<lparr>CreateTime = clock w' (clockReads w'), Object = obj\<rparr>, None),
              w'', p'') \<and> curNum p'' = 1 \<and> Len p'' = 0))"
proof -
  have v: "\<not> (Max_cfg config \<le> 0 \<or> Min_cfg config > Max_cfg config)"
    using assms by simp
  from NewGenericPool_valid [OF v assms(3)]
  obtain p w' where H:
    "NewGenericPool config w =
        (Returns (Some p, if curNum p = 0 then Some ErrFactoryFunc else None), w')"
    "w' = w\<lparr>clockReads := Suc (clockReads w), factoryLog := factoryLog w'\<rparr>"
    "factoryLog w' = factoryLog w @
        map (FactoryFunc config)
          [length (factoryLog w)..<length (factoryLog w) + nat (Min_cfg config)]"
    "p = \<lparr>pool = \<lparr>buf = buf (pool p), cap = Max_cfg config, chclosed = False\<rparr>,
           maxCap = Max_cfg config, minCap = Min_cfg config, curNum = curNum p,
           closed = False, maxLifeTime = LiftTime config,
           factoryFunc = FactoryFunc config, closeFunc = CloseFunc config\<rparr>"
    "curNum p = int (created w') - int (created w)"
    "int (length (buf (pool p))) = int (created w') - int (created w)"
    "created w \<le> created w'" "created w' \<le> created w + nat (Min_cfg config)"
    by blast
  have f: "closed p = False" "chclosed (pool p) = False" "maxCap p = Max_cfg config"
    "maxLifeTime p = LiftTime config" "factoryFunc p = FactoryFunc config"
    by (subst H(4), simp)+
  have l: "factoryLog w' = factoryLog w"
    using H(3) assms(1) by simp
  have c: "created w' = created w"
    using H(7,8) assms(1) by simp
  have z: "curNum p = 0" "Len p = 0" "buf (pool p) = []"
    using H(5,6) c by (simp_all add: Len_def)
  have u: "\<exists>w'' p''. Acquire (w', p) =
       Some (Returns (\<lparr>CreateTime = clock w' (clockReads w'), Object = obj\<rparr>, None),
         w'', p'') \<and> curNum p'' = 1 \<and> Len p'' = 0"
    if o: "FactoryFunc config (length (factoryLog w')) = Inr obj"
      and x: "\<not> expired_at (LiftTime config) (clock w' (clockReads w'))
                (clock w' (Suc (clockReads w')))" for obj
  proof -
    have a1: "\<not> closed p" and a3: "\<not> chclosed (pool p)" using f by simp_all
    have a4: "curNum p < maxCap p" using z f(3) assms(2) by simp
    have a5: "factoryFunc p (length (factoryLog w')) = Inr obj" using o f(5) by simp
    have a6: "\<not> expired_at (maxLifeTime p) (clock w' (clockReads w'))
        (clock w' (Suc (clockReads w')))" using x f(4) by simp
    show ?thesis
      using Acquire_creates [OF a1 z(3) a3 a4 a5 a6] z by (simp add: Len_def)
  qed
  show ?thesis
    using H(1) l z f(1,2,3) u
    by (intro exI [of _ p] exI [of _ w']) (simp add: IsClosed_def)
qed

theorem construction_without_warm_up_witness:
  "Min_cfg cfg_cold \<le> 0 \<and> 0 < Max_cfg cfg_cold \<and>
   Max_cfg cfg_cold \<le> chanLimit (init_world still :: nat world) \<and>
   (\<exists>p w'. NewGenericPool cfg_cold (init_world still) =
        (Returns (Some p, Some ErrFactoryFunc), w') \<and>
      factoryLog w' = [] \<and> Len p = 0 \<and>
      (\<exists>w'' p''. Acquire (w', p) =
          Some (Returns (\<lparr>CreateTime = 100, Object = Some 0\<rparr>, None), w'', p'') \<and>
        curNum p'' = 1))"
proof -
  have h: "Min_cfg cfg_cold \<le> 0" "0 < Max_cfg cfg_cold"
    by (simp_all add: cfg_cold_def)
  have k: "Max_cfg cfg_cold \<le> chanLimit (init_world still :: nat world)"
    by (simp add: cfg_cold_def init_world_def maxChanCap_def)
  from construction_without_warm_up [OF h k] show ?thesis
  proof (elim exE conjE)
    fix p w'
    assume H: "NewGenericPool cfg_cold (init_world still) =
        (Returns (Some p, Some ErrFactoryFunc), w')"
      "factoryLog w' = factoryLog (init_world still)"
      "Len p = 0"
      "\<forall>obj. FactoryFunc cfg_cold (length (factoryLog w')) = Inr obj \<longrightarrow>
         \<not> expired_at (LiftTime cfg_cold) (clock w' (clockReads w'))
             (clock w' (Suc (clockReads w'))) \<longrightarrow>
         (\<exists>w'' p''. Acquire (w', p) =
            Some (Returns (\<lparr>CreateTime = clock w' (clockReads w'), Object = obj\<rparr>, None),
              w'', p'') \<and> curNum p'' = 1 \<and> Len p'' = 0)"
    have l: "factoryLog w' = []"
      using H(2) by (simp add: init_world_def)
    have w': "w' = init_world still\<lparr>clockReads := Suc 0\<rparr>"
      using H(1)
      by (simp add: NewGenericPool_def make_chan_def maxChanCap_def cfg_cold_def
          init_world_def time_Now_def)
    have t: "clock w' (clockReads w') = 100"
      by (simp add: w' init_world_def still_def)
    have o: "FactoryFunc cfg_cold (length (factoryLog w')) = Inr (Some 0)"
      by (simp add: l cfg_cold_def)
    have x: "\<not> expired_at (LiftTime cfg_cold) (clock w' (clockReads w'))
        (clock w' (Suc (clockReads w')))"
      by (simp add: expired_at_def cfg_cold_def)
    from H(4) o x t have "\<exists>w'' p''. Acquire (w', p) =
        Some (Returns (\<lparr>CreateTime = 100, Object = Some 0\<rparr>, None), w'', p'') \<and>
        curNum p'' = 1"
      by fastforce
    with H(1) l H(3) h k show ?thesis by blast
  qed
qed

text \<open>
  The claim as first stated says that the error is always reported. With
  \<open>Min = 0\<close> and \<open>Max = 2 ^ 62\<close> the construction stops in
  \<open>make\<close> and reports nothing.
\<close>

theorem construction_without_warm_up_counterexample:
  "Min_cfg cfg_huge_cold \<le> 0 \<and> 0 < Max_cfg cfg_huge_cold \<and>
   NewGenericPool cfg_huge_cold (init_world still) = (Panics MakeChanFailed, init_world still)"
  by (simp add: NewGenericPool_def make_chan_def cfg_huge_cold_def init_world_def
      maxChanCap_def)

subsection \<open>Close\<close>

text \<open>
  Claim C7. \<open>Close\<close> calls the destructor once, on the wrapped value, and
  returns what the destructor returns. When the destructor fails the pool is
  unchanged, so the counter is unchanged; when it succeeds the counter goes
  down by exactly one and nothing else changes. In both cases the channel and
  the closed flag are what they were.
\<close>

theorem Close_accounting:
  "\<exists>r w' p'. Close poolObj (w, p) = (Returns r, w', p') \<and>
     r = closeFunc p (length (closeLog w)) (Object poolObj) \<and>
     w' = w\<lparr>closeLog := closeLog w @ [(Object poolObj, r)]\<rparr> \<and>
     (r \<noteq> None \<longrightarrow> p' = p) \<and>
     (r = None \<longrightarrow> p' = p\<lparr>curNum := curNum p - 1\<rparr>) \<and>
     pool p' = pool p \<and> closed p' = closed p"
  by (cases "closeFunc p (length (closeLog w)) (Object poolObj)")
    (simp_all add: Close_def call_close_def Let_def)

theorem Close_accounting_witness:
  "Close \<lparr>CreateTime = 100, Object = Some 2\<rparr> (init_world still, pool_two) =
     (Returns None,
      (init_world still)\<lparr>closeLog := [(Some 2, None)]\<rparr>, pool_two\<lparr>curNum := 1\<rparr>) \<and>
   Close \<lparr>CreateTime = 100, Object = Some 2\<rparr>
       ((init_world still)\<lparr>closeLog := [(Some 2, None)]\<rparr>, pool_two\<lparr>curNum := 1\<rparr>) =
     (Returns (Some (ErrOther ''busy'')),
      (init_world still)\<lparr>closeLog := [(Some 2, None), (Some 2, Some (ErrOther ''busy''))]\<rparr>,
      pool_two\<lparr>curNum := 1\<rparr>)"
proof -
  let ?o = "\<lparr>CreateTime = 100, Object = Some (2::nat)\<rparr>"
  let ?w1 = "(init_world still)\<lparr>closeLog := [(Some (2::nat), None)]\<rparr>"
  have a: "closeFunc pool_two (length (closeLog (init_world still))) (Object ?o) = None"
    by (simp add: pool_two_def cfg_flaky_def init_world_def)
  have b: "closeFunc (pool_two\<lparr>curNum := 1\<rparr>) (length (closeLog ?w1)) (Object ?o) =
      Some (ErrOther ''busy'')"
    by (simp add: pool_two_def cfg_flaky_def init_world_def)
  have c: "curNum pool_two - 1 = 1" by (simp add: pool_two_def)
  have 1: "Close ?o (init_world still, pool_two) = (Returns None, ?w1, pool_two\<lparr>curNum := 1\<rparr>)"
    using Close_accounting [of ?o "init_world still" pool_two] a c
    by (auto simp: init_world_def)
  have 2: "Close ?o (?w1, pool_two\<lparr>curNum := 1\<rparr>) =
     (Returns (Some (ErrOther ''busy'')),
      (init_world still)\<lparr>closeLog := [(Some 2, None), (Some 2, Some (ErrOther ''busy''))]\<rparr>,
      pool_two\<lparr>curNum := 1\<rparr>)"
    using Close_accounting [of ?o ?w1 "pool_two\<lparr>curNum := 1\<rparr>"] b
    by (auto simp: init_world_def)
  from 1 2 show ?thesis by simp
qed

subsection \<open>Acquire and the life time\<close>

text \<open>
  Claim C1. Let the life time be positive. Every call of \<open>Acquire\<close> that
  returns a resource without an error has read the clock during the call, and
  at its last reading, the one of the final expiry test, the age of the
  resource is below the life time: \<open>now - createdAt < ttl\<close> as integers.
  And when \<open>getOrCreate\<close> hands the loop a resource, from the channel or
  newly created, whose age at the test has reached the life time, the call
  does not return it: it goes round the loop again in the state that
  \<open>getOrCreate\<close> left, one clock reading later, with the resource neither
  put back nor destroyed nor taken off the counter.
\<close>

theorem Acquire_never_returns_expired:
  assumes "0 < sint (maxLifeTime p)"
  shows "(\<forall>obj w' p'. Acquire (w, p) = Some (Returns (obj, None), w', p') \<longrightarrow>
            clockReads w < clockReads w' \<and> clock w' = clock w \<and>
            sint (clock w (clockReads w' - 1)) - sint (CreateTime obj)
              < sint (maxLifeTime p)) \<and>
         (\<forall>obj w1 p1. \<not> closed p \<and> getOrCreate (w, p) = (Returns (obj, None), w1, p1) \<and>
            sint (maxLifeTime p) \<le> sint (clock w1 (clockReads w1)) - sint (CreateTime obj) \<longrightarrow>
            Acquire (w, p) = Acquire_loop (w1\<lparr>clockReads := Suc (clockReads w1)\<rparr>, p1))"
proof (intro conjI allI impI)
  fix obj w' p'
  assume a: "Acquire (w, p) = Some (Returns (obj, None), w', p')"
  then have o: "\<not> closed p" by (auto simp: Acquire_def split: if_splits)
  with a have l: "Acquire_loop (w, p) = Some (Returns (obj, None), w', p')"
    by (simp add: Acquire_def)
  from Acquire_loop_fresh_aux [OF l] assms
  show "clockReads w < clockReads w'"
    and "sint (clock w (clockReads w' - 1)) - sint (CreateTime obj) < sint (maxLifeTime p)"
    by simp_all
  from Acquire_frame [OF a] show "clock w' = clock w" by simp
next
  fix obj w1 p1
  assume h: "\<not> closed p \<and> getOrCreate (w, p) = (Returns (obj, None), w1, p1) \<and>
     sint (maxLifeTime p) \<le> sint (clock w1 (clockReads w1)) - sint (CreateTime obj)"
  then have g: "getOrCreate (w, p) = (Returns (obj, None), w1, p1)" by simp
  from getOrCreate_frame [OF g] have m: "maxLifeTime p1 = maxLifeTime p" by simp
  have e: "expired_at (maxLifeTime p1) (CreateTime obj) (clock w1 (clockReads w1))"
    using h assms m by (intro old_is_expired) simp_all
  from Acquire_loop_expired [OF g e] h
  show "Acquire (w, p) = Acquire_loop (w1\<lparr>clockReads := Suc (clockReads w1)\<rparr>, p1)"
    by (simp add: Acquire_def)
qed

theorem Acquire_never_returns_expired_witness:
  "0 < sint (maxLifeTime demo_pool) \<and>
   Acquire (demo_world jump, demo_pool) =
     Some (Returns (\<lparr>CreateTime = 110, Object = Some 3\<rparr>, None),
       (demo_world jump)\<lparr>clockReads := 6,
          factoryLog := [Inr (Some 0), Inr (Some 1), Inr (Some 2), Inr (Some 3)]\<rparr>,
       demo_pool\<lparr>pool := (pool demo_pool)\<lparr>buf := []\<rparr>, curNum := 4\<rparr>) \<and>
   sint (jump 5) - sint (110 :: int64) < sint (maxLifeTime demo_pool) \<and>
   sint (maxLifeTime demo_pool) \<le> sint (jump 1) - sint (100 :: int64) \<and>
   Acquire (demo_world jump, demo_pool) =
     Acquire_loop ((demo_world jump)\<lparr>clockReads := 2\<rparr>,
       demo_pool\<lparr>pool := (pool demo_pool)\<lparr>buf := [\<lparr>CreateTime = 100, Object = Some 1\<rparr>,
         \<lparr>CreateTime = 100, Object = Some 2\<rparr>]\<rparr>\<rparr>)"
proof -
  have h: "0 < sint (maxLifeTime demo_pool)" by (simp add: demo_pool_def)
  have o: "\<not> closed demo_pool" by (simp add: demo_pool_def)
  have t: "sint (maxLifeTime demo_pool) \<le> sint (jump 1) - sint (100 :: int64)"
    by (simp add: demo_pool_def jump_def)
  note T = Acquire_never_returns_expired [OF h, of "demo_world jump"]
  from T demo_late_Acquire
  have 1: "sint (jump 5) - sint (110 :: int64) < sint (maxLifeTime demo_pool)"
    by (simp add: demo_world_def)
  have t': "sint (maxLifeTime demo_pool) \<le>
      sint (clock (demo_world jump) (clockReads (demo_world jump))) -
      sint (CreateTime \<lparr>CreateTime = 100, Object = Some (0::nat)\<rparr>)"
    by (simp add: demo_pool_def demo_world_def jump_def)
  from T [THEN conjunct2, rule_format, OF conjI [OF o conjI [OF demo_late_getOrCreate t']]]
  have 2: "Acquire (demo_world jump, demo_pool) =
     Acquire_loop ((demo_world jump)\<lparr>clockReads := 2\<rparr>,
       demo_pool\<lparr>pool := (pool demo_pool)\<lparr>buf := [\<lparr>CreateTime = 100, Object = Some 1\<rparr>,
         \<lparr>CreateTime = 100, Object = Some 2\<rparr>]\<rparr>\<rparr>)"
    by (simp add: demo_world_def numeral_2_eq_2)
  from h demo_late_Acquire 1 t 2 show ?thesis by simp
qed

subsection \<open>Shutdown\<close>

text \<open>
  Claim C3. Take an open pool: the closed flag is unset and the idle channel
  has not been closed, which is to say that no \<open>Shutdown\<close> has yet got
  past its first test on this pool. If the destructor succeeds on every idle
  resource,
  \<open>Shutdown\<close> returns no error; the destructor has been called exactly
  once on each idle resource, in the order of the queue; the counter has gone
  down by the number of idle resources; the pool is closed and its queue is
  empty. From then on every program runs to its end with \<open>ErrPoolClosed\<close>
  as the reply to each \<open>Acquire\<close>, \<open>Release\<close> and \<open>Shutdown\<close>,
  the pool stays closed, and the destructor is called for the \<open>Close\<close>
  calls of the program and for nothing else, so a second \<open>Shutdown\<close> calls
  it on nothing. If the destructor first fails on the resource at position
  \<open>i\<close> of the queue, \<open>Shutdown\<close> returns that error; the destructor has
  been called on the first \<open>i + 1\<close> resources and no further; the counter
  has gone down by \<open>i\<close>; and the closed flag is still unset.
\<close>

theorem Shutdown_drains_idle:
  assumes "\<not> closed p" and "\<not> chclosed (pool p)"
  shows "((\<forall>i<Len p. closeFunc p (length (closeLog w) + i) (Object (buf (pool p) ! i)) = None) \<longrightarrow>
          (\<exists>w' p'. Shutdown (w, p) = (Returns None, w', p') \<and>
             closeLog w' = closeLog w @ map (\<lambda>x. (Object x, None)) (buf (pool p)) \<and>
             curNum p' = curNum p - int (Len p) \<and> IsClosed p' \<and> Len p' = 0 \<and>
             (\<forall>cs w2. \<exists>rs w3 p3 es. run cs (w2, p') = Some (rs, w3, p3) \<and>
                list_all2 closed_reply cs rs \<and> IsClosed p3 \<and>
                closeLog w3 = closeLog w2 @ es \<and> map fst es = close_args cs))) \<and>
         (\<forall>i err. i < Len p \<and>
             (\<forall>j<i. closeFunc p (length (closeLog w) + j) (Object (buf (pool p) ! j)) = None) \<and>
             closeFunc p (length (closeLog w) + i) (Object (buf (pool p) ! i)) = Some err \<longrightarrow>
          (\<exists>w' p'. Shutdown (w, p) = (Returns (Some err), w', p') \<and>
             closeLog w' = closeLog w @ map (\<lambda>x. (Object x, None)) (take i (buf (pool p))) @
               [(Object (buf (pool p) ! i), Some err)] \<and>
             curNum p' = curNum p - int i \<and> \<not> IsClosed p'))"
proof (intro conjI allI impI)
  let ?xs = "buf (pool p)"
  let ?p0 = "p\<lparr>pool := (pool p)\<lparr>chclosed := True\<rparr>\<rparr>"
  assume ok: "\<forall>i<Len p. closeFunc p (length (closeLog w) + i) (Object (?xs ! i)) = None"
  let ?w' = "w\<lparr>closeLog := closeLog w @ map (\<lambda>x. (Object x, None)) ?xs\<rparr>"
  let ?p' = "?p0\<lparr>pool := (pool ?p0)\<lparr>buf := []\<rparr>, curNum := curNum ?p0 - int (length ?xs),
      closed := True\<rparr>"
  have a: "buf (pool ?p0) = ?xs" by simp
  have b: "\<forall>i<length ?xs. closeFunc ?p0 (length (closeLog w) + i) (Object (?xs ! i)) = None"
    using ok by (simp add: Len_def)
  have s: "Shutdown (w, p) = (Returns None, ?w', ?p')"
    using drain_all_succeed [OF a b] by (simp add: Shutdown_open [OF assms])
  have c: "closed ?p'" by simp
  have r: "\<exists>rs w3 p3 es. run cs (w2, ?p') = Some (rs, w3, p3) \<and>
      list_all2 closed_reply cs rs \<and> IsClosed p3 \<and>
      closeLog w3 = closeLog w2 @ es \<and> map fst es = close_args cs" for cs w2
    using run_closed [OF c, of cs w2] by (simp add: IsClosed_def)
  show "\<exists>w' p'. Shutdown (w, p) = (Returns None, w', p') \<and>
      closeLog w' = closeLog w @ map (\<lambda>x. (Object x, None)) ?xs \<and>
      curNum p' = curNum p - int (Len p) \<and> IsClosed p' \<and> Len p' = 0 \<and>
      (\<forall>cs w2. \<exists>rs w3 p3 es. run cs (w2, p') = Some (rs, w3, p3) \<and>
         list_all2 closed_reply cs rs \<and> IsClosed p3 \<and>
         closeLog w3 = closeLog w2 @ es \<and> map fst es = close_args cs)"
    using s r by (intro exI [of _ ?w'] exI [of _ ?p']) (simp add: IsClosed_def Len_def)
next
  fix i err
  let ?xs = "buf (pool p)"
  let ?p0 = "p\<lparr>pool := (pool p)\<lparr>chclosed := True\<rparr>\<rparr>"
  assume h: "i < Len p \<and>
     (\<forall>j<i. closeFunc p (length (closeLog w) + j) (Object (?xs ! j)) = None) \<and>
     closeFunc p (length (closeLog w) + i) (Object (?xs ! i)) = Some err"
  let ?w' = "w\<lparr>closeLog := closeLog w @ map (\<lambda>x. (Object x, None)) (take i ?xs) @
         [(Object (?xs ! i), Some err)]\<rparr>"
  let ?p' = "?p0\<lparr>pool := (pool ?p0)\<lparr>buf := drop (Suc i) ?xs\<rparr>, curNum := curNum ?p0 - int i\<rparr>"
  have a: "i < length ?xs" using h by (simp add: Len_def)
  have b: "\<forall>j<i. closeFunc ?p0 (length (closeLog w) + j) (Object (?xs ! j)) = None"
    using h by simp
  have c: "closeFunc ?p0 (length (closeLog w) + i) (Object (?xs ! i)) = Some err"
    using h by simp
  have s: "Shutdown (w, p) = (Returns (Some err), ?w', ?p')"
    using drain_first_failure [OF a b c] by (simp add: Shutdown_open [OF assms])
  show "\<exists>w' p'. Shutdown (w, p) = (Returns (Some err), w', p') \<and>
      closeLog w' = closeLog w @ map (\<lambda>x. (Object x, None)) (take i ?xs) @
        [(Object (?xs ! i), Some err)] \<and>
      curNum p' = curNum p - int i \<and> \<not> IsClosed p'"
    using s assms by (intro exI [of _ ?w'] exI [of _ ?p']) (simp add: IsClosed_def)
qed

theorem Shutdown_drains_idle_witness:
  "\<not> closed demo_pool \<and> \<not> chclosed (pool demo_pool) \<and>
   map (\<lambda>i. closeFunc demo_pool (length (closeLog (demo_world still)) + i)
       (Object (buf (pool demo_pool) ! i))) [0..<Len demo_pool] = [None, None, None] \<and>
   (\<exists>w' p'. Shutdown (demo_world still, demo_pool) = (Returns None, w', p') \<and>
      closeLog w' = [(Some 0, None), (Some 1, None), (Some 2, None)] \<and>
      curNum p' = 0 \<and> IsClosed p' \<and> Len p' = 0 \<and>
      (\<exists>w3 p3. run [CallShutdown, CallAcquire, CallRelease \<lparr>CreateTime = 100, Object = Some 0\<rparr>]
            (w', p') =
          Some ([ErrorReply (Some ErrPoolClosed),
                 AcquireReply zeroPoolObject (Some ErrPoolClosed),
                 ErrorReply (Some ErrPoolClosed)], w3, p3) \<and>
         closeLog w3 = closeLog w')) \<and>
   \<not> closed busy_pool \<and> \<not> chclosed (pool busy_pool) \<and> 1 < Len busy_pool \<and>
   closeFunc busy_pool (length (closeLog (demo_world still)) + 0)
       (Object (buf (pool busy_pool) ! 0)) = None \<and>
   closeFunc busy_pool (length (closeLog (demo_world still)) + 1)
       (Object (buf (pool busy_pool) ! 1)) = Some (ErrOther ''busy'') \<and>
   (\<exists>w' p'. Shutdown (demo_world still, busy_pool) =
        (Returns (Some (ErrOther ''busy'')), w', p') \<and>
      closeLog w' = [(Some 0, None), (Some 1, Some (ErrOther ''busy''))] \<and>
      curNum p' = 2 \<and> \<not> IsClosed p')"
proof -
  let ?cs = "[CallShutdown, CallAcquire, CallRelease \<lparr>CreateTime = 100, Object = Some (0::nat)\<rparr>]"
  have d: "\<not> closed demo_pool" "\<not> chclosed (pool demo_pool)"
    by (simp_all add: demo_pool_def)
  have da: "\<forall>i<Len demo_pool. closeFunc demo_pool (length (closeLog (demo_world still)) + i)
       (Object (buf (pool demo_pool) ! i)) = None"
    by (simp add: demo_pool_def cfg_demo_def)
  have b: "\<not> closed busy_pool" "\<not> chclosed (pool busy_pool)"
    by (simp_all add: busy_pool_def demo_pool_def)
  have b1: "1 < Len busy_pool"
    by (simp add: Len_def busy_pool_def demo_pool_def)
  have b2: "\<forall>j<1. closeFunc busy_pool (length (closeLog (demo_world still)) + j)
       (Object (buf (pool busy_pool) ! j)) = None"
    by (simp add: busy_pool_def cfg_flaky_def demo_world_def)
  have b3: "closeFunc busy_pool (length (closeLog (demo_world still)) + 1)
       (Object (buf (pool busy_pool) ! 1)) = Some (ErrOther ''busy'')"
    by (simp add: busy_pool_def cfg_flaky_def demo_world_def demo_pool_def)
  from Shutdown_drains_idle [OF d, of "demo_world still", THEN conjunct1, THEN mp, OF da]
  obtain w' p' where H: "Shutdown (demo_world still, demo_pool) = (Returns None, w', p')"
    "closeLog w' = closeLog (demo_world still) @
       map (\<lambda>x. (Object x, None)) (buf (pool demo_pool))"
    "curNum p' = curNum demo_pool - int (Len demo_pool)" "IsClosed p'" "Len p' = 0"
    "\<forall>cs w2. \<exists>rs w3 p3 es. run cs (w2, p') = Some (rs, w3, p3) \<and>
       list_all2 closed_reply cs rs \<and> IsClosed p3 \<and>
       closeLog w3 = closeLog w2 @ es \<and> map fst es = close_args cs"
    by (elim exE conjE)
  from H(6) obtain rs w3 p3 es where R: "run ?cs (w', p') = Some (rs, w3, p3)"
    "list_all2 closed_reply ?cs rs" "closeLog w3 = closeLog w' @ es"
    "map fst es = close_args ?cs"
    by blast
  from R(2) have rs: "rs = [ErrorReply (Some ErrPoolClosed),
      AcquireReply zeroPoolObject (Some ErrPoolClosed), ErrorReply (Some ErrPoolClosed)]"
    by (auto simp: list_all2_Cons1)
  from R(3,4) have l: "closeLog w3 = closeLog w'" by simp
  have 1: "\<exists>w' p'. Shutdown (demo_world still, demo_pool) = (Returns None, w', p') \<and>
      closeLog w' = [(Some 0, None), (Some 1, None), (Some 2, None)] \<and>
      curNum p' = 0 \<and> IsClosed p' \<and> Len p' = 0 \<and>
      (\<exists>w3 p3. run ?cs (w', p') =
          Some ([ErrorReply (Some ErrPoolClosed),
                 AcquireReply zeroPoolObject (Some ErrPoolClosed),
                 ErrorReply (Some ErrPoolClosed)], w3, p3) \<and>
         closeLog w3 = closeLog w')"
    using H(1-5) R(1) rs l
    by (intro exI [of _ w'] exI [of _ p']) (simp add: demo_world_def demo_pool_def Len_def)
  from Shutdown_drains_idle [OF b, of "demo_world still", THEN conjunct2,
      THEN spec [of _ 1], THEN spec [of _ "ErrOther ''busy''"], THEN mp,
      OF conjI [OF b1 conjI [OF b2 b3]]]
  obtain w'' p'' where K: "Shutdown (demo_world still, busy_pool) =
      (Returns (Some (ErrOther ''busy'')), w'', p'')"
    "closeLog w'' = closeLog (demo_world still) @
       map (\<lambda>x. (Object x, None)) (take 1 (buf (pool busy_pool))) @
       [(Object (buf (pool busy_pool) ! 1), Some (ErrOther ''busy''))]"
    "curNum p'' = curNum busy_pool - int 1" "\<not> IsClosed p''"
    by (elim exE conjE)
  have 2: "\<exists>w' p'. Shutdown (demo_world still, busy_pool) =
        (Returns (Some (ErrOther ''busy'')), w', p') \<and>
      closeLog w' = [(Some 0, None), (Some 1, Some (ErrOther ''busy''))] \<and>
      curNum p' = 2 \<and> \<not> IsClosed p'"
    using K
    by (intro exI [of _ w''] exI [of _ p''])
      (simp add: demo_world_def demo_pool_def busy_pool_def)
  have da': "map (\<lambda>i. closeFunc demo_pool (length (closeLog (demo_world still)) + i)
       (Object (buf (pool demo_pool) ! i))) [0..<Len demo_pool] = [None, None, None]"
    by (simp add: demo_pool_def cfg_demo_def Len_def upt_rec)
  have b2': "closeFunc busy_pool (length (closeLog (demo_world still)) + 0)
       (Object (buf (pool busy_pool) ! 0)) = None"
    using b2 by simp
  from d da' 1 b b1 b2' b3 2 show ?thesis by blast
qed

subsection \<open>After a failed Shutdown\<close>

text \<open>
  Claim C9. When \<open>Shutdown\<close> on a pool whose closed flag is unset returns
  an error of the destructor, the idle channel is closed and the closed flag is
  still unset. This cannot be undone: after every program that runs to its end
  from there, the channel is still closed and the flag still unset, a
  \<open>Release\<close> of a resource that has not expired panics with a send on a
  closed channel, and a \<open>Shutdown\<close> panics with a close of a closed
  channel.
\<close>

theorem failed_Shutdown_closes_channel:
  assumes "\<not> closed p" and "Shutdown (w, p) = (Returns (Some err), w', p')"
  shows "chclosed (pool p') \<and> \<not> IsClosed p' \<and>
     (\<forall>cs rs w3 p3. run cs (w', p') = Some (rs, w3, p3) \<longrightarrow>
        chclosed (pool p3) \<and> \<not> IsClosed p3 \<and>
        (\<forall>obj. \<not> expired_at (maxLifeTime p3) (CreateTime obj) (clock w3 (clockReads w3)) \<longrightarrow>
           fst (Release obj (w3, p3)) = Panics SendOnClosedChannel) \<and>
        fst (Shutdown (w3, p3)) = Panics CloseOfClosedChannel)"
proof -
  have o: "\<not> chclosed (pool p)"
    using assms by (auto simp: Shutdown_def chan_close_def)
  let ?p0 = "p\<lparr>pool := (pool p)\<lparr>chclosed := True\<rparr>\<rparr>"
  have d: "drain (buf (pool p)) (w, ?p0) = (Some err, w', p')"
    using assms(2) by (auto simp: Shutdown_open [OF assms(1) o] split: prod.splits option.splits)
  from drain_frame [OF d] have l: "chclosed (pool p')" "\<not> closed p'"
    using assms(1) by simp_all
  have k: "chclosed (pool p3) \<and> \<not> IsClosed p3 \<and>
        (\<forall>obj. \<not> expired_at (maxLifeTime p3) (CreateTime obj) (clock w3 (clockReads w3)) \<longrightarrow>
           fst (Release obj (w3, p3)) = Panics SendOnClosedChannel) \<and>
        fst (Shutdown (w3, p3)) = Panics CloseOfClosedChannel"
    if r: "run cs (w', p') = Some (rs, w3, p3)" for cs rs w3 p3
  proof -
    from run_limbo [OF l r] have m: "chclosed (pool p3)" "\<not> closed p3" by simp_all
    then show ?thesis
      by (simp add: IsClosed_def Release_def isLiftTimeOut_eq chan_send_def Shutdown_def
          chan_close_def)
  qed
  from l k show ?thesis by (simp add: IsClosed_def)
qed

theorem failed_Shutdown_closes_channel_witness:
  "NewGenericPool cfg_busy (init_world still) =
     (Returns (Some busy_pool, None), demo_world still) \<and>
   \<not> closed busy_pool \<and>
   Shutdown (demo_world still, busy_pool) =
     (Returns (Some (ErrOther ''busy'')), limbo_world, limbo_pool) \<and>
   Len limbo_pool = 1 \<and> chclosed (pool limbo_pool) \<and> \<not> IsClosed limbo_pool \<and>
   \<not> expired_at (maxLifeTime limbo_pool) (CreateTime \<lparr>CreateTime = 100, Object = Some (0::nat)\<rparr>)
       (clock limbo_world (clockReads limbo_world)) \<and>
   fst (Release \<lparr>CreateTime = 100, Object = Some 0\<rparr> (limbo_world, limbo_pool)) =
     Panics SendOnClosedChannel \<and>
   fst (Shutdown (limbo_world, limbo_pool)) = Panics CloseOfClosedChannel"
proof -
  have b: "\<not> closed busy_pool"
    by (simp add: busy_pool_def demo_pool_def)
  have n: "Len limbo_pool = 1"
    by (simp add: Len_def limbo_pool_def)
  have x: "\<not> expired_at (maxLifeTime limbo_pool)
       (CreateTime \<lparr>CreateTime = 100, Object = Some (0::nat)\<rparr>)
       (clock limbo_world (clockReads limbo_world))"
    by (simp add: expired_at_def limbo_pool_def busy_pool_def demo_pool_def limbo_world_def
        demo_world_def still_def)
  have r: "run [] (limbo_world, limbo_pool) = Some ([], limbo_world, limbo_pool)"
    by simp
  note T = failed_Shutdown_closes_channel [OF b busy_Shutdown]
  from T have 1: "chclosed (pool limbo_pool)" "\<not> IsClosed limbo_pool" by simp_all
  from T [THEN conjunct2, THEN conjunct2, rule_format, OF r]
  have 2: "fst (Release \<lparr>CreateTime = 100, Object = Some 0\<rparr> (limbo_world, limbo_pool)) =
     Panics SendOnClosedChannel"
    and 3: "fst (Shutdown (limbo_world, limbo_pool)) = Panics CloseOfClosedChannel"
    using x by simp_all
  from busy_construction b busy_Shutdown n 1 x 2 3 show ?thesis by simp
qed

subsection \<open>Release\<close>




subsection \<open>Creation on demand\<close>




subsection \<open>The counter\<close>

text \<open>
  Claim C2, as amended. In every state that a program of \<open>Acquire\<close>,
  \<open>Release\<close>, \<open>Close\<close> and \<open>Shutdown\<close> calls reaches from a
  construction that returned a pool, the counter is at most \<open>maxCap\<close>,
  which is the \<open>Max\<close> of the configuration, and equals the number of
  factory calls that succeeded minus the number of destructor calls that
  succeeded. So the counter is non-negative exactly as long as the destructor
  has not succeeded more often than the factory.
\<close>

theorem liveCount_accounting:
  fixes config :: "'a PoolConfig"
  assumes "NewGenericPool config (init_world c) = (Returns (Some p, e), w)"
    and "run cs (w, p) = Some (rs, w', p')"
  shows "curNum p' \<le> maxCap p' \<and> maxCap p' = Max_cfg config \<and>
     curNum p' = int (created w') - int (destroyed w') \<and>
     (0 \<le> curNum p' \<longleftrightarrow> destroyed w' \<le> created w')"
proof -
  have v: "\<not> (Max_cfg config \<le> 0 \<or> Min_cfg config > Max_cfg config)"
    using assms(1) by (auto simp: NewGenericPool_def)
  let ?i = "init_world c :: 'a world"
  have k: "Max_cfg config \<le> chanLimit ?i"
  proof (rule ccontr)
    assume "\<not> Max_cfg config \<le> chanLimit ?i"
    then have "chanLimit ?i < Max_cfg config" by simp
    from NewGenericPool_make_fails [OF v this] assms(1) show False by simp
  qed
  from NewGenericPool_valid [OF v k]
  obtain p0 w0 where N: "NewGenericPool config ?i =
        (Returns (Some p0, if curNum p0 = 0 then Some ErrFactoryFunc else None), w0)"
    and H0: "w0 = ?i\<lparr>clockReads := Suc (clockReads ?i),
        factoryLog := factoryLog w0\<rparr>"
    "factoryLog w0 = factoryLog ?i @
        map (FactoryFunc config)
          [length (factoryLog ?i)..<
           length (factoryLog ?i) + nat (Min_cfg config)]"
    "p0 = \<lparr>pool = \<lparr>buf = buf (pool p0), cap = Max_cfg config, chclosed = False\<rparr>,
           maxCap = Max_cfg config, minCap = Min_cfg config, curNum = curNum p0,
           closed = False, maxLifeTime = LiftTime config,
           factoryFunc = FactoryFunc config, closeFunc = CloseFunc config\<rparr>"
    "curNum p0 = int (created w0) - int (created ?i)"
    "int (length (buf (pool p0))) = int (created w0) - int (created ?i)"
    "created ?i \<le> created w0"
    "created w0 \<le> created ?i + nat (Min_cfg config)"
    by blast
  from N assms(1) have "p0 = p" "w0 = w" by simp_all
  note H = H0 [unfolded this]
  have m: "maxCap p = Max_cfg config" by (subst H(3)) simp
  have z: "created ?i = 0" by (simp add: created_def init_world_def)
  have "closeLog w = []" by (subst H(1)) (simp add: init_world_def)
  then have d: "destroyed w = 0" by (simp add: destroyed_def)
  have a: "curNum p = int (created w) - int (destroyed w)"
    using H(4) z d by simp
  have b: "curNum p \<le> maxCap p"
    using H(4,7) z m v by (simp, linarith)
  from run_accounting [OF assms(2) b a] m show ?thesis by auto
qed

theorem liveCount_accounting_witness:
  "NewGenericPool cfg_single (init_world still) =
     (Returns (Some single_pool, None), single_world) \<and>
   run [CallAcquire, CallClose \<lparr>CreateTime = 100, Object = Some 0\<rparr>]
       (single_world, single_pool) =
     Some ([AcquireReply \<lparr>CreateTime = 100, Object = Some 0\<rparr> None, ErrorReply None],
       single_world\<lparr>closeLog := [(Some 0, None)]\<rparr>,
       single_pool\<lparr>pool := (pool single_pool)\<lparr>buf := []\<rparr>, curNum := 0\<rparr>) \<and>
   curNum (single_pool\<lparr>pool := (pool single_pool)\<lparr>buf := []\<rparr>, curNum := 0\<rparr>) \<le> 1 \<and>
   created (single_world\<lparr>closeLog := [(Some 0, None)]\<rparr>) = 1 \<and>
   destroyed (single_world\<lparr>closeLog := [(Some (0::nat), None)]\<rparr>) = 1"
proof -
  let ?o = "\<lparr>CreateTime = 100, Object = Some (0::nat)\<rparr>"
  let ?w = "single_world\<lparr>closeLog := [(Some (0::nat), None)]\<rparr>"
  let ?p = "single_pool\<lparr>pool := (pool single_pool)\<lparr>buf := []\<rparr>, curNum := 0\<rparr>"
  have k: "Close ?o (single_world, single_pool\<lparr>pool := (pool single_pool)\<lparr>buf := []\<rparr>\<rparr>) =
      (Returns None, ?w, ?p)"
    by (simp add: Close_def call_close_def Let_def single_pool_def single_world_def
        cfg_single_def)
  have r: "run [CallAcquire, CallClose ?o] (single_world, single_pool) =
      Some ([AcquireReply ?o None, ErrorReply None], ?w, ?p)"
    by (simp add: exec_def single_Acquire k)
  from liveCount_accounting [OF single_construction r]
  have t: "curNum ?p \<le> maxCap ?p" "maxCap ?p = Max_cfg cfg_single"
    "curNum ?p = int (created ?w) - int (destroyed ?w)"
    by simp_all
  have c: "created ?w = 1" by (simp add: created_def single_world_def)
  from t have b: "curNum ?p \<le> 1" by (simp add: cfg_single_def)
  from t(3) c have d: "destroyed ?w = 1" by simp
  from single_construction r b c d show ?thesis by simp
qed

text \<open>
  The claim as first stated also keeps the counter from going negative.
  \<open>Close\<close> takes any \<open>PoolObject\<close> and the pool keeps no record of
  what it has handed out: in the pool of one resource, acquiring the resource
  and calling \<open>Close\<close> on it twice leaves the counter at \<open>-1\<close>.
\<close>

theorem liveCount_negative_counterexample:
  "NewGenericPool cfg_single (init_world still) =
     (Returns (Some single_pool, None), single_world) \<and>
   run [CallAcquire, CallClose \<lparr>CreateTime = 100, Object = Some 0\<rparr>,
        CallClose \<lparr>CreateTime = 100, Object = Some 0\<rparr>] (single_world, single_pool) =
     Some ([AcquireReply \<lparr>CreateTime = 100, Object = Some 0\<rparr> None, ErrorReply None,
            ErrorReply None],
       single_world\<lparr>closeLog := [(Some 0, None), (Some 0, None)]\<rparr>,
       single_pool\<lparr>pool := (pool single_pool)\<lparr>buf := []\<rparr>, curNum := - 1\<rparr>) \<and>
   curNum (single_pool\<lparr>pool := (pool single_pool)\<lparr>buf := []\<rparr>, curNum := - 1\<rparr>) < 0"
proof -
  let ?o = "\<lparr>CreateTime = 100, Object = Some (0::nat)\<rparr>"
  have k1: "Close ?o (single_world, single_pool\<lparr>pool := (pool single_pool)\<lparr>buf := []\<rparr>\<rparr>) =
      (Returns None, single_world\<lparr>closeLog := [(Some 0, None)]\<rparr>,
       single_pool\<lparr>pool := (pool single_pool)\<lparr>buf := []\<rparr>, curNum := 0\<rparr>)"
    by (simp add: Close_def call_close_def Let_def single_pool_def single_world_def
        cfg_single_def)
  have k2: "Close ?o (single_world\<lparr>closeLog := [(Some 0, None)]\<rparr>,
       single_pool\<lparr>pool := (pool single_pool)\<lparr>buf := []\<rparr>, curNum := 0\<rparr>) =
      (Returns None, single_world\<lparr>closeLog := [(Some 0, None), (Some 0, None)]\<rparr>,
       single_pool\<lparr>pool := (pool single_pool)\<lparr>buf := []\<rparr>, curNum := - 1\<rparr>)"
    by (simp add: Close_def call_close_def Let_def single_pool_def single_world_def
        cfg_single_def)
  have r: "run [CallAcquire, CallClose ?o, CallClose ?o] (single_world, single_pool) =
     Some ([AcquireReply ?o None, ErrorReply None, ErrorReply None],
       single_world\<lparr>closeLog := [(Some 0, None), (Some 0, None)]\<rparr>,
       single_pool\<lparr>pool := (pool single_pool)\<lparr>buf := []\<rparr>, curNum := - 1\<rparr>)"
    by (simp add: exec_def single_Acquire k1 k2)
  from single_construction r show ?thesis by simp
qed

end
